theory Spec2Isabelle
  imports Main "HOL-Library.Sublist" "HOL-Library.List_Lexorder" "HOL-Library.Char_ord"
begin

section \<open>Strings and hashing\<close>

text \<open>
  Strings are lists of characters. \<open>String.prototype.toLowerCase\<close> belongs to the
  JavaScript runtime, not to the repository: every function that lower-cases an e-mail
  takes the runtime's function as its argument \<open>L\<close>, and nothing is assumed about it.
  \<open>toLowerCase\<close> below is that function on texts of ASCII characters, where it lowers
  the letters \<open>A\<close> to \<open>Z\<close> and leaves every other character alone; it is what the
  concrete runs of this theory, all on ASCII e-mails, pass for \<open>L\<close>.
\<close>

definition lower_char :: "char \<Rightarrow> char" where
  "lower_char c =
     (case map_of (zip ''ABCDEFGHIJKLMNOPQRSTUVWXYZ'' ''abcdefghijklmnopqrstuvwxyz'') c of
        Some l \<Rightarrow> l
      | None \<Rightarrow> c)"

definition toLowerCase :: "string \<Rightarrow> string" where
  "toLowerCase s = map lower_char s"

text \<open>\<open>String.prototype.includes\<close>: the argument occurs as a contiguous substring.\<close>

fun str_includes :: "string \<Rightarrow> string \<Rightarrow> bool" where
  "str_includes [] sub = (sub = [])"
| "str_includes (c # cs) sub = (prefix sub (c # cs) \<or> str_includes cs sub)"

text \<open>
  \<open>createHash('sha256').update(s).digest('hex')\<close> belongs to the Node.js runtime, not to
  the repository either. Every function that hashes takes the digest function as its
  argument \<open>H\<close>; nothing is assumed about it.

  \<open>hashEmail\<close> (UserManager, MongoSearchCache, MongoCredentialStore, CredentialStore and
  SearchCache all carry the same body): the first 16 hex digits of the digest of the
  lower-cased e-mail.
\<close>

definition hashEmail ::
  "(string \<Rightarrow> string) \<Rightarrow> (string \<Rightarrow> string) \<Rightarrow> string \<Rightarrow> string" where
  "hashEmail H L email = take 16 (H (L email))"

section \<open>Document collections\<close>

text \<open>
  A MongoDB collection is a list of documents in natural order. The driver calls the
  repository uses are modelled on it: \<open>findOne\<close> returns the first match,
  \<open>updateMany\<close> rewrites every match, \<open>updateOne\<close> the first one (and reports
  \<open>matchedCount\<close>), \<open>replaceOne\<close> with \<open>upsert: true\<close> replaces the first match or
  inserts the document, \<open>deleteOne\<close> removes the first match and \<open>deleteMany\<close> all
  of them.
\<close>

definition findOne :: "('d \<Rightarrow> bool) \<Rightarrow> 'd list \<Rightarrow> 'd option" where
  "findOne p c = find p c"

definition updateMany :: "('d \<Rightarrow> bool) \<Rightarrow> ('d \<Rightarrow> 'd) \<Rightarrow> 'd list \<Rightarrow> 'd list" where
  "updateMany p f c = map (\<lambda>d. if p d then f d else d) c"

fun updateOne :: "('d \<Rightarrow> bool) \<Rightarrow> ('d \<Rightarrow> 'd) \<Rightarrow> 'd list \<Rightarrow> 'd list" where
  "updateOne p f [] = []"
| "updateOne p f (d # ds) = (if p d then f d # ds else d # updateOne p f ds)"

definition matchedCount :: "('d \<Rightarrow> bool) \<Rightarrow> 'd list \<Rightarrow> nat" where
  "matchedCount p c = (if list_ex p c then 1 else 0)"

definition replaceOne_upsert :: "('d \<Rightarrow> bool) \<Rightarrow> 'd \<Rightarrow> 'd list \<Rightarrow> 'd list" where
  "replaceOne_upsert p doc c =
     (if list_ex p c then updateOne p (\<lambda>_. doc) c else c @ [doc])"



section \<open>UserManager\<close>

text \<open>Timestamps are milliseconds since the epoch, as \<open>Date.getTime()\<close> gives them.\<close>

type_synonym time = int

record UserConfig =
  userHash :: string
  email :: string
  isDefault :: bool
  createdAt :: time
  lastUsed :: time

text \<open>
  \<open>UserManager.addUser\<close> and \<open>UserManager.setDefaultUser\<close>. The argument \<open>now\<close> is
  what \<open>new Date()\<close> reads during the call.
\<close>

definition addUser ::
  "(string \<Rightarrow> string) \<Rightarrow> (string \<Rightarrow> string) \<Rightarrow> time \<Rightarrow> string \<Rightarrow> bool \<Rightarrow> UserConfig list
     \<Rightarrow> UserConfig list" where
  "addUser H L now em dflt c =
     (let uh = hashEmail H L em;
          userConfig = \<lparr>userHash = uh, email = L em, isDefault = dflt,
                        createdAt = now, lastUsed = now\<rparr>;
          c1 = (if dflt then updateMany isDefault (\<lambda>d. d\<lparr>isDefault := False\<rparr>) c else c)
      in replaceOne_upsert (\<lambda>d. userHash d = uh) userConfig c1)"

definition setDefaultUser ::
  "(string \<Rightarrow> string) \<Rightarrow> (string \<Rightarrow> string) \<Rightarrow> time \<Rightarrow> string \<Rightarrow> UserConfig list
     \<Rightarrow> UserConfig list" where
  "setDefaultUser H L now em c =
     (let uh = hashEmail H L em;
          c1 = updateMany (\<lambda>_. True) (\<lambda>d. d\<lparr>isDefault := False\<rparr>) c;
          matched = matchedCount (\<lambda>d. userHash d = uh) c1;
          c2 = updateOne (\<lambda>d. userHash d = uh) (\<lambda>d. d\<lparr>isDefault := True, lastUsed := now\<rparr>) c1
      in if matched = 0 then addUser H L now em True c2 else c2)"

text \<open>What a user record says apart from its timestamps.\<close>

definition identity_and_flag :: "UserConfig \<Rightarrow> string \<times> string \<times> bool" where
  "identity_and_flag d = (userHash d, email d, isDefault d)"

section \<open>Query parameters and cache keys\<close>

text \<open>
  The caches take a parameter object (\<open>DirectorySearchParams\<close>, or the calendar's key
  object). An object is the list of its own properties in insertion order, with distinct
  keys; a property holds a string, a boolean, or \<open>undefined\<close>.
\<close>

datatype jsvalue = JString string | JBoolean bool | JUndefined

type_synonym jsobject = "(string \<times> jsvalue) list"

definition js_get :: "jsobject \<Rightarrow> string \<Rightarrow> jsvalue" where
  "js_get obj k = (case map_of obj k of None \<Rightarrow> JUndefined | Some v \<Rightarrow> v)"

definition js_delete :: "string \<Rightarrow> jsobject \<Rightarrow> jsobject" where
  "js_delete k obj = filter (\<lambda>kv. fst kv \<noteq> k) obj"

definition object_keys :: "jsobject \<Rightarrow> string list" where
  "object_keys obj = map fst obj"

text \<open>
  \<open>JSON.stringify(value, keys)\<close> of the runtime, for an object of such properties and a
  list of keys as the replacer: the listed properties in the order of the list, a property
  whose value is \<open>undefined\<close> left out. Strings are quoted with the escapes of the
  language standard.
\<close>

definition hex_digit :: "nat \<Rightarrow> char" where
  "hex_digit n = ''0123456789abcdef'' ! (n mod 16)"

definition json_escape :: "char \<Rightarrow> string" where
  "json_escape c =
     (if c = CHR 0x08 then [CHR 0x5C, CHR ''b'']
      else if c = CHR 0x09 then [CHR 0x5C, CHR ''t'']
      else if c = CHR 0x0A then [CHR 0x5C, CHR ''n'']
      else if c = CHR 0x0C then [CHR 0x5C, CHR ''f'']
      else if c = CHR 0x0D then [CHR 0x5C, CHR ''r'']
      else if c = CHR 0x22 then [CHR 0x5C, CHR 0x22]
      else if c = CHR 0x5C then [CHR 0x5C, CHR 0x5C]
      else if (of_char c :: nat) < 32
        then [CHR 0x5C, CHR ''u'', CHR ''0'', CHR ''0'',
              hex_digit ((of_char c :: nat) div 16), hex_digit ((of_char c :: nat) mod 16)]
      else [c])"

definition json_quote :: "string \<Rightarrow> string" where
  "json_quote s = [CHR 0x22] @ concat (map json_escape s) @ [CHR 0x22]"

fun json_value :: "jsvalue \<Rightarrow> string option" where
  "json_value (JString s) = Some (json_quote s)"
| "json_value (JBoolean b) = Some (if b then ''true'' else ''false'')"
| "json_value JUndefined = None"

fun json_members :: "jsobject \<Rightarrow> string list \<Rightarrow> string list" where
  "json_members obj [] = []"
| "json_members obj (k # ks) =
     (case json_value (js_get obj k) of
        None \<Rightarrow> json_members obj ks
      | Some t \<Rightarrow> (json_quote k @ '':'' @ t) # json_members obj ks)"

fun join_comma :: "string list \<Rightarrow> string" where
  "join_comma [] = []"
| "join_comma [x] = x"
| "join_comma (x # y # ys) = x @ '','' @ join_comma (y # ys)"

definition JSON_stringify :: "jsobject \<Rightarrow> string list \<Rightarrow> string" where
  "JSON_stringify obj ks = ''{'' @ join_comma (json_members obj ks) @ ''}''"

text \<open>
  \<open>MongoSearchCache.getCacheKey\<close>: a copy of the parameters without \<open>userEmail\<close> and
  \<open>refresh\<close>, serialised with its keys sorted, then hashed.
\<close>

definition cacheKeyText :: "jsobject \<Rightarrow> string" where
  "cacheKeyText params =
     (let searchParams = js_delete ''refresh'' (js_delete ''userEmail'' params)
      in JSON_stringify searchParams (sort (object_keys searchParams)))"

definition getCacheKey :: "(string \<Rightarrow> string) \<Rightarrow> jsobject \<Rightarrow> string" where
  "getCacheKey H params = H (cacheKeyText params)"

section \<open>MongoSearchCache\<close>

record 'a CacheEntry =
  entryUserHash :: string
  searchHash :: string
  data :: 'a
  timestamp :: time
  expiresAt :: time

text \<open>
  A cache object is made for one user (\<open>new MongoSearchCache(userEmail)\<close>); the
  operations below take that e-mail as \<open>u\<close>, the clock reading as \<open>now\<close> and the cache
  collection as \<open>c\<close>.
\<close>

definition MongoSearchCache_get ::
  "(string \<Rightarrow> string) \<Rightarrow> (string \<Rightarrow> string) \<Rightarrow> string \<Rightarrow> jsobject \<Rightarrow> time
     \<Rightarrow> 'a CacheEntry list \<Rightarrow> 'a option" where
  "MongoSearchCache_get H L u params now c =
     (case findOne (\<lambda>d. entryUserHash d = hashEmail H L u \<and> searchHash d = getCacheKey H params
                        \<and> expiresAt d > now) c of
        None \<Rightarrow> None
      | Some document \<Rightarrow> Some (data document))"

definition MongoSearchCache_set ::
  "(string \<Rightarrow> string) \<Rightarrow> (string \<Rightarrow> string) \<Rightarrow> string \<Rightarrow> jsobject \<Rightarrow> 'a \<Rightarrow> int \<Rightarrow> time
     \<Rightarrow> 'a CacheEntry list \<Rightarrow> 'a CacheEntry list" where
  "MongoSearchCache_set H L u params dat lifetimeHours now c =
     (let sh = getCacheKey H params;
          cacheEntry = \<lparr>entryUserHash = hashEmail H L u, searchHash = sh, data = dat,
                        timestamp = now, expiresAt = now + lifetimeHours * 60 * 60 * 1000\<rparr>
      in replaceOne_upsert (\<lambda>d. entryUserHash d = hashEmail H L u \<and> searchHash d = sh)
           cacheEntry c)"


section \<open>MongoCredentialStore\<close>

record Credentials =
  username :: string
  password :: string

record EncryptedCredentialDocument =
  docUserHash :: string
  encryptedCredentials :: string
  iv :: string
  docCreatedAt :: time
  updatedAt :: time

text \<open>
  The cipher (\<open>aes-256-cbc\<close> of the runtime) and the JSON coding of a credentials object
  are not part of the repository. They are the fields of \<open>codec\<close>; decryption and parsing
  may throw, which is \<open>None\<close>. A digest is represented by its hex form.
\<close>

record codec =
  encrypt_with :: "string \<Rightarrow> string \<Rightarrow> string \<Rightarrow> string"
  decrypt_with :: "string \<Rightarrow> string \<Rightarrow> string \<Rightarrow> string option"
  stringify_credentials :: "Credentials \<Rightarrow> string"
  parse_credentials :: "string \<Rightarrow> Credentials option"

text \<open>\<open>MongoCredentialStore.deriveKey\<close>.\<close>

definition deriveKey :: "(string \<Rightarrow> string) \<Rightarrow> string \<Rightarrow> string \<Rightarrow> string" where
  "deriveKey H masterKey userEmail = (let combined = masterKey @ userEmail in H combined)"

text \<open>
  A store object is made for one user; \<open>mk\<close> is the master key of the environment,
  \<open>u\<close> the e-mail given to the constructor, \<open>rnd\<close> the fresh initialisation vector that
  \<open>randomBytes(16)\<close> returns.
\<close>

definition saveCredentials ::
  "codec \<Rightarrow> (string \<Rightarrow> string) \<Rightarrow> (string \<Rightarrow> string) \<Rightarrow> string \<Rightarrow> string \<Rightarrow> string \<Rightarrow> time
     \<Rightarrow> Credentials \<Rightarrow> EncryptedCredentialDocument list \<Rightarrow> EncryptedCredentialDocument list" where
  "saveCredentials cd H L mk u rnd now credentials c =
     (let credentialsJson = stringify_credentials cd credentials;
          encrypted = encrypt_with cd (deriveKey H mk u) rnd credentialsJson;
          document = \<lparr>docUserHash = hashEmail H L u, encryptedCredentials = encrypted, iv = rnd,
                      docCreatedAt = now, updatedAt = now\<rparr>
      in replaceOne_upsert (\<lambda>d. docUserHash d = hashEmail H L u) document c)"

definition loadCredentials ::
  "codec \<Rightarrow> (string \<Rightarrow> string) \<Rightarrow> (string \<Rightarrow> string) \<Rightarrow> string \<Rightarrow> string
     \<Rightarrow> EncryptedCredentialDocument list \<Rightarrow> Credentials option" where
  "loadCredentials cd H L mk u c =
     (case findOne (\<lambda>d. docUserHash d = hashEmail H L u) c of
        None \<Rightarrow> None
      | Some document \<Rightarrow>
          (case decrypt_with cd (deriveKey H mk u) (iv document) (encryptedCredentials document) of
             None \<Rightarrow> None
           | Some decrypted \<Rightarrow> parse_credentials cd decrypted))"



section \<open>SearchCache on files\<close>

text \<open>
  The file-backed cache keeps one JSON file per query under the user's directory.
  \<open>SearchCache.getCacheKey\<close> serialises five fields, each defaulting to the empty string,
  encodes the text in base64 and replaces \<open>/\<close>, \<open>+\<close> and \<open>=\<close> by \<open>_\<close>.
\<close>

definition or_empty :: "jsvalue \<Rightarrow> jsvalue" where
  "or_empty v =
     (case v of
        JString s \<Rightarrow> (if s = [] then JString [] else JString s)
      | JBoolean b \<Rightarrow> (if b then JBoolean True else JString [])
      | JUndefined \<Rightarrow> JString [])"

definition base64_alphabet :: string where
  "base64_alphabet = ''ABCDEFGHIJKLMNOPQRSTUVWXYZabcdefghijklmnopqrstuvwxyz0123456789+/''"

definition b64 :: "nat \<Rightarrow> char" where
  "b64 n = base64_alphabet ! (n mod 64)"

fun base64 :: "nat list \<Rightarrow> string" where
  "base64 [] = []"
| "base64 [a] = [b64 (a div 4), b64 ((a mod 4) * 16), CHR ''='', CHR ''='']"
| "base64 [a, b] =
     [b64 (a div 4), b64 ((a mod 4) * 16 + b div 16), b64 ((b mod 16) * 4), CHR ''='']"
| "base64 (a # b # c # rest) =
     [b64 (a div 4), b64 ((a mod 4) * 16 + b div 16), b64 ((b mod 16) * 4 + c div 64),
      b64 (c mod 64)] @ base64 rest"

definition filename_safe :: "string \<Rightarrow> string" where
  "filename_safe s =
     map (\<lambda>c. if c = CHR ''/'' \<or> c = CHR ''+'' \<or> c = CHR ''='' then CHR ''_'' else c) s"

definition SearchCache_keyText :: "jsobject \<Rightarrow> string" where
  "SearchCache_keyText params =
     JSON_stringify
       [(''firstName'', or_empty (js_get params ''firstName'')),
        (''lastName'', or_empty (js_get params ''lastName'')),
        (''city'', or_empty (js_get params ''city'')),
        (''postalCode'', or_empty (js_get params ''postalCode'')),
        (''gradeLevel'', or_empty (js_get params ''gradeLevel''))]
       [''firstName'', ''lastName'', ''city'', ''postalCode'', ''gradeLevel'']"

definition SearchCache_getCacheKey :: "jsobject \<Rightarrow> string" where
  "SearchCache_getCacheKey params =
     (let key = SearchCache_keyText params
      in filename_safe (base64 (map of_char key)))"

text \<open>
  The file system is a map from paths to file contents; \<open>home\<close> is the home directory.
  \<open>JSON.parse\<close> of a cache file is the parameter \<open>parse\<close>, \<open>None\<close> when it throws.
\<close>

record 'a FileCacheEntry =
  fileData :: 'a
  fileTimestamp :: time
  fileExpiresAt :: time

definition getCacheFilePath ::
  "(string \<Rightarrow> string) \<Rightarrow> (string \<Rightarrow> string) \<Rightarrow> string \<Rightarrow> string \<Rightarrow> jsobject \<Rightarrow> string" where
  "getCacheFilePath H L home u params =
     home @ ''/.csg-portal-users/'' @ hashEmail H L u @ ''/cache/directory_''
       @ SearchCache_getCacheKey params @ ''.json''"

definition SearchCache_get ::
  "(string \<Rightarrow> string) \<Rightarrow> (string \<Rightarrow> string) \<Rightarrow> string \<Rightarrow> (string \<Rightarrow> 'a FileCacheEntry option)
     \<Rightarrow> string \<Rightarrow> jsobject \<Rightarrow> time \<Rightarrow> (string \<rightharpoonup> string) \<Rightarrow> 'a option" where
  "SearchCache_get H L home parse u params now fs =
     (case fs (getCacheFilePath H L home u params) of
        None \<Rightarrow> None
      | Some fileContent \<Rightarrow>
          (case parse fileContent of
             None \<Rightarrow> None
           | Some cacheEntry \<Rightarrow>
               if now > fileExpiresAt cacheEntry then None else Some (fileData cacheEntry)))"

section \<open>Requests of several users against the shared collections\<close>








section \<open>HTTP responses and the classification of a login attempt\<close>

text \<open>
  What the code reads from a \<open>fetch\<close> response: the status, the \<open>Location\<close> header
  (\<open>headers.get('location')\<close>, \<open>null\<close> when absent), the \<open>Set-Cookie\<close> headers, the final
  URL and the body text. \<open>response.ok\<close> is a status from 200 to 299.
\<close>

record http_response =
  status :: int
  location :: "string option"
  set_cookie :: "string list"
  url :: string
  body :: string

definition ok :: "http_response \<Rightarrow> bool" where
  "ok r = (200 \<le> status r \<and> status r \<le> 299)"

text \<open>\<open>location && !location.includes('login')\<close>: \<open>null\<close> and the empty string are falsy.\<close>

definition location_away_from_login :: "http_response \<Rightarrow> bool" where
  "location_away_from_login r =
     (case location r of
        None \<Rightarrow> False
      | Some l \<Rightarrow> l \<noteq> [] \<and> \<not> str_includes l ''login'')"

text \<open>
  \<open>VeracrossAuth.login\<close> (the password variant of the class), from the response of the
  login POST on: the value the method returns.
\<close>

definition login_result :: "http_response \<Rightarrow> bool" where
  "login_result loginResponse =
     (if (status loginResponse = 302 \<or> status loginResponse = 200)
          \<and> location_away_from_login loginResponse
      then True
      else if \<not> str_includes (body loginResponse) ''Invalid''
              \<and> \<not> str_includes (body loginResponse) ''error''
      then True
      else False)"

text \<open>
  \<open>BrowserAuthServer.handleLoginSubmission\<close>, step 3: the value of \<open>loginSuccessful\<close>.
\<close>

definition loginSuccessful :: "http_response \<Rightarrow> bool" where
  "loginSuccessful loginResponse =
     (if status loginResponse = 302 then location_away_from_login loginResponse
      else if status loginResponse = 200
      then \<not> str_includes (body loginResponse) ''Invalid''
           \<and> \<not> str_includes (body loginResponse) ''incorrect''
           \<and> \<not> str_includes (body loginResponse) ''error''
           \<and> str_includes (body loginResponse) ''parent''
      else False)"

text \<open>
  The rule as the specification words it: a redirect whose target does not contain
  \<open>login\<close>, or a 200 response whose body has none of the failure markers.
\<close>

definition stated_login_success :: "string list \<Rightarrow> http_response \<Rightarrow> bool" where
  "stated_login_success markers r =
     ((300 \<le> status r \<and> status r < 400 \<and> location_away_from_login r)
      \<or> (status r = 200 \<and> (\<forall>m\<in>set markers. \<not> str_includes (body r) m)))"

section \<open>Cookies, requests and the state of VeracrossAuth\<close>

text \<open>\<open>String.prototype.split\<close> on one character, and \<open>String.prototype.trim\<close>.\<close>

fun split_on :: "char \<Rightarrow> string \<Rightarrow> string list" where
  "split_on c [] = [[]]"
| "split_on c (x # xs) =
     (if x = c then [] # split_on c xs
      else (case split_on c xs of
              [] \<Rightarrow> [[x]]
            | y # ys \<Rightarrow> (x # y) # ys))"

definition is_space :: "char \<Rightarrow> bool" where
  "is_space c = (c = CHR '' '' \<or> c = CHR 0x09 \<or> c = CHR 0x0A \<or> c = CHR 0x0D)"

definition trim :: "string \<Rightarrow> string" where
  "trim s = rev (dropWhile is_space (rev (dropWhile is_space s)))"

text \<open>
  The cookie jar of the \<open>tough-cookie\<close> package, as far as the class uses it: a cookie
  is stored under the host of the URL it was set for and its name, a later cookie of the
  same host and name replaces the earlier one, and \<open>getCookieString\<close> joins the cookies of
  the host of the URL. A cookie string is its \<open>name=value\<close> pair, attributes after the
  first \<open>;\<close> are not modelled; a string without \<open>=\<close> or without a name does not parse,
  and \<open>setCookie\<close> throws (\<open>None\<close>).
\<close>

type_synonym cookie_jar = "(string \<times> string \<times> string) list"

definition parse_cookie :: "string \<Rightarrow> (string \<times> string) option" where
  "parse_cookie s =
     (let pair = takeWhile (\<lambda>c. c \<noteq> CHR '';'') s;
          name = trim (takeWhile (\<lambda>c. c \<noteq> CHR ''='') pair);
          val = trim (drop (Suc (length (takeWhile (\<lambda>c. c \<noteq> CHR ''='') pair))) pair)
      in if CHR ''='' \<in> set pair \<and> name \<noteq> [] then Some (name, val) else None)"

definition setCookie :: "string \<Rightarrow> string \<Rightarrow> cookie_jar \<Rightarrow> cookie_jar option" where
  "setCookie host cookie jar =
     (case parse_cookie cookie of
        None \<Rightarrow> None
      | Some (name, val) \<Rightarrow>
          Some (if list_ex (\<lambda>e. fst e = host \<and> fst (snd e) = name) jar
                then map (\<lambda>e. if fst e = host \<and> fst (snd e) = name then (host, name, val) else e) jar
                else jar @ [(host, name, val)]))"

fun join_semicolon :: "string list \<Rightarrow> string" where
  "join_semicolon [] = []"
| "join_semicolon [x] = x"
| "join_semicolon (x # y # ys) = x @ ''; '' @ join_semicolon (y # ys)"

definition getCookieString :: "string \<Rightarrow> cookie_jar \<Rightarrow> string" where
  "getCookieString host jar =
     join_semicolon (map (\<lambda>e. fst (snd e) @ ''='' @ snd (snd e)) (filter (\<lambda>e. fst e = host) jar))"

text \<open>
  A loop of \<open>await jar.setCookie(cookie, url)\<close> over a list of cookie strings: it stops at
  the first cookie that throws, keeping what was set before. The flag says whether it got
  through.
\<close>

fun setCookies :: "string \<Rightarrow> string list \<Rightarrow> cookie_jar \<Rightarrow> cookie_jar \<times> bool" where
  "setCookies host [] jar = (jar, True)"
| "setCookies host (c # cs) jar =
     (case setCookie host c jar of
        None \<Rightarrow> (jar, False)
      | Some jar' \<Rightarrow> setCookies host cs jar')"

text \<open>The same loop with each call in its own \<open>try\<close>: a cookie that throws is skipped.\<close>

fun setCookies_skipping :: "string \<Rightarrow> string list \<Rightarrow> cookie_jar \<Rightarrow> cookie_jar" where
  "setCookies_skipping host [] jar = jar"
| "setCookies_skipping host (c # cs) jar =
     (case setCookie host c jar of
        None \<Rightarrow> setCookies_skipping host cs jar
      | Some jar' \<Rightarrow> setCookies_skipping host cs jar')"

text \<open>
  An object literal with a spread at its end, \<open>{ k1: v1, k2: v2, ...extra }\<close>: a
  property of \<open>extra\<close> overwrites the property of the same name or is added at the end.
\<close>

definition js_set :: "string \<Rightarrow> 'v \<Rightarrow> (string \<times> 'v) list \<Rightarrow> (string \<times> 'v) list" where
  "js_set k v obj =
     (if list_ex (\<lambda>kv. fst kv = k) obj
      then map (\<lambda>kv. if fst kv = k then (k, v) else kv) obj
      else obj @ [(k, v)])"

fun js_spread :: "(string \<times> 'v) list \<Rightarrow> (string \<times> 'v) list \<Rightarrow> (string \<times> 'v) list" where
  "js_spread base [] = base"
| "js_spread base ((k, v) # extra) = js_spread (js_set k v base) extra"

text \<open>
  The \<open>options\<close> argument of a request: its \<open>headers\<close> property (possibly absent) and its
  other properties (\<open>method\<close>, \<open>body\<close>, \<open>redirect\<close>). A call of \<open>fetch\<close> is the URL with the
  headers and other properties it was given.
\<close>

record options =
  opt_headers :: "(string \<times> string) list option"
  opt_rest :: "(string \<times> string) list"

definition no_options :: options where
  "no_options = \<lparr>opt_headers = None, opt_rest = []\<rparr>"

definition headers_of :: "options \<Rightarrow> (string \<times> string) list" where
  "headers_of opts = (case opt_headers opts of None \<Rightarrow> [] | Some h \<Rightarrow> h)"

record fetch_call =
  target :: string
  headers :: "(string \<times> string) list"
  init :: "(string \<times> string) list"

text \<open>
  A stored session is a JSON text, and the code reads it with \<open>JSON.parse\<close> and no check
  of its shape. The text may fail to parse, parse to \<open>null\<close>, or parse to a value whose
  properties the code then reads: \<open>cookies\<close> (\<open>None\<close> when the property is absent; when
  it is there it is a string, as the code that writes a session makes it), \<open>userAgent\<close>
  (only read as \<open>userAgent || default\<close>, so an absent one is the empty string),
  \<open>timestamp\<close>, and \<open>expiresAt\<close> as a date (\<open>None\<close> when it is absent or not a date, in
  which case no date is later than it).
\<close>

record SessionData =
  cookies :: "string option"
  userAgent :: string
  sessionTimestamp :: time
  sessionExpiresAt :: "time option"

datatype parsed_session = NotJSON | JSONNull | JSONValue SessionData

text \<open>
  What a method throws: an \<open>Error\<close> made by the code with its message, the \<open>TypeError\<close>
  of the runtime for reading a property of \<open>null\<close>, a failure of \<open>fetch\<close>, of
  \<open>new URL\<close>, or of \<open>setCookie\<close>.
\<close>

datatype error = Error string | TypeError | FetchFailed | InvalidURL | CookieParseFailed

text \<open>
  The object state of \<open>VeracrossAuth\<close> together with what it acts on: the credentials
  collection, the responses the network will give to the coming calls of \<open>fetch\<close> in
  order (\<open>None\<close> when the call throws; an exhausted list throws), and the calls made so
  far. \<open>browserAuthServer\<close> and \<open>credentialStore\<close> hold the e-mail their object was
  constructed with.
\<close>

record world =
  cookieJar :: cookie_jar
  isAuthenticated :: bool
  currentUserEmail :: "string option"
  browserAuthServer :: "string option"
  credentialStore :: "string option"
  db :: "EncryptedCredentialDocument list"
  script :: "http_response option list"
  sent :: "fetch_call list"

text \<open>
  What the class takes from its surroundings: the digest, the lower-casing, the cipher and
  the master key of the credential store, the base URL given to the constructor, \<open>new URL(u).hostname\<close>
  (\<open>None\<close> when \<open>u\<close> is not a URL), \<open>JSON.parse\<close> of a stored session, and the two
  login procedures \<open>ensureAuthenticated\<close> falls back to, which are parameters here and
  may do to the world whatever they do: \<open>attemptPasswordLogin\<close>, and \<open>startAuthFlow\<close> of
  the browser-auth server made for the given e-mail.
\<close>

record env =
  digest :: "string \<Rightarrow> string"
  lowerCase :: "string \<Rightarrow> string"
  cipher :: codec
  masterKey :: string
  baseUrl :: string
  hostname :: "string \<Rightarrow> string option"
  parse_session :: "string \<Rightarrow> parsed_session"
  attemptPasswordLogin :: "string \<Rightarrow> string \<Rightarrow> world \<Rightarrow> bool \<times> world"
  startAuthFlow_of :: "string \<Rightarrow> world \<Rightarrow> bool \<times> world"

definition host_of :: "env \<Rightarrow> string \<Rightarrow> string" where
  "host_of e u = (case hostname e u of None \<Rightarrow> [] | Some h \<Rightarrow> h)"

definition userAgent_Chrome91 :: string where
  "userAgent_Chrome91 = ''Mozilla/5.0 (Macintosh; Intel Mac OS X 10_15_7) AppleWebKit/537.36 (KHTML, like Gecko) Chrome/91.0.4472.124 Safari/537.36''"

definition userAgent_Chrome120 :: string where
  "userAgent_Chrome120 = ''Mozilla/5.0 (Macintosh; Intel Mac OS X 10_15_7) AppleWebKit/537.36 (KHTML, like Gecko) Chrome/120.0.0.0 Safari/537.36''"

definition fetch :: "fetch_call \<Rightarrow> world \<Rightarrow> http_response option \<times> world" where
  "fetch call w =
     (case script w of
        [] \<Rightarrow> (None, w\<lparr>sent := sent w @ [call]\<rparr>)
      | r # rs \<Rightarrow> (r, w\<lparr>script := rs, sent := sent w @ [call]\<rparr>))"

text \<open>\<open>VeracrossAuth.makeRequest\<close> (the same in every variant of the class).\<close>

definition makeRequest :: "env \<Rightarrow> string \<Rightarrow> options \<Rightarrow> world \<Rightarrow> (error + http_response) \<times> world" where
  "makeRequest e u opts w =
     (let cookieString = getCookieString (host_of e u) (cookieJar w);
          (response, w1) =
             fetch \<lparr>target = u,
                    headers = js_spread [(''Cookie'', cookieString),
                                         (''User-Agent'', userAgent_Chrome91)] (headers_of opts),
                    init = opt_rest opts\<rparr> w
      in case response of
           None \<Rightarrow> (Inl FetchFailed, w1)
         | Some r \<Rightarrow>
             (case setCookies (host_of e u) (set_cookie r) (cookieJar w1) of
                (jar, True) \<Rightarrow> (Inr r, w1\<lparr>cookieJar := jar\<rparr>)
              | (jar, False) \<Rightarrow> (Inl CookieParseFailed, w1\<lparr>cookieJar := jar\<rparr>)))"

text \<open>The two guards that replace the helper objects when the user changes.\<close>

definition ensureBrowserAuthServer :: "string \<Rightarrow> world \<Rightarrow> world" where
  "ensureBrowserAuthServer userEmail w =
     (if browserAuthServer w = None \<or> currentUserEmail w \<noteq> Some userEmail
      then w\<lparr>browserAuthServer := Some userEmail, currentUserEmail := Some userEmail,
             isAuthenticated := False\<rparr>
      else w)"

definition ensureCredentialStore :: "string \<Rightarrow> world \<Rightarrow> world" where
  "ensureCredentialStore userEmail w =
     (if credentialStore w = None \<or> currentUserEmail w \<noteq> Some userEmail
      then w\<lparr>credentialStore := Some userEmail, currentUserEmail := Some userEmail,
             isAuthenticated := False\<rparr>
      else w)"

text \<open>\<open>this.credentialStore!.loadCredentials()\<close>.\<close>

definition store_loadCredentials :: "env \<Rightarrow> world \<Rightarrow> Credentials option" where
  "store_loadCredentials e w =
     (case credentialStore w of
        None \<Rightarrow> None
      | Some su \<Rightarrow> loadCredentials (cipher e) (digest e) (lowerCase e) (masterKey e) su (db w))"

definition logout :: "world \<Rightarrow> world" where
  "logout w = w\<lparr>isAuthenticated := False, cookieJar := []\<rparr>"

text \<open>The probe of a loaded session: \<open>testResponse.ok && !testResponse.url.includes('login')\<close>.\<close>

definition probe_accepts :: "http_response \<Rightarrow> bool" where
  "probe_accepts testResponse = (ok testResponse \<and> \<not> str_includes (url testResponse) ''login'')"

section \<open>VeracrossAuth with session and password fallback\<close>

text \<open>
  The variant of the class that keeps a \<open>MongoCredentialStore\<close> of its own.
  \<open>loadStoredSession\<close> and \<open>hasStoredSession\<close> return \<open>false\<close> from their \<open>catch\<close> blocks,
  which take the failure of \<open>JSON.parse\<close> and the \<open>TypeError\<close> of reading \<open>cookies\<close> from
  \<open>null\<close>; the inner \<open>catch\<close> of \<open>loadStoredSession\<close> also takes a cookie that fails to
  parse. \<open>if (sessionData.cookies)\<close> is false for an absent and for an empty cookie string.
\<close>

definition loadStoredSession :: "env \<Rightarrow> string \<Rightarrow> world \<Rightarrow> bool \<times> world" where
  "loadStoredSession e userEmail w =
     (let w1 = ensureCredentialStore userEmail w
      in case store_loadCredentials e w1 of
           None \<Rightarrow> (False, w1)
         | Some credentials \<Rightarrow>
             if password credentials = [] then (False, w1)
             else (case parse_session e (password credentials) of
                     NotJSON \<Rightarrow> (False, w1)
                   | JSONNull \<Rightarrow> (False, w1)
                   | JSONValue sessionData \<Rightarrow>
                       (case cookies sessionData of
                          None \<Rightarrow> (False, w1)
                        | Some cookieString \<Rightarrow>
                            if cookieString = [] then (False, w1)
                            else (case setCookies (host_of e (baseUrl e))
                                         (filter (\<lambda>c. c \<noteq> [])
                                            (map trim (split_on (CHR '';'') cookieString)))
                                         (cookieJar w1) of
                                    (jar, True) \<Rightarrow>
                                      (True, w1\<lparr>cookieJar := jar, isAuthenticated := True\<rparr>)
                                  | (jar, False) \<Rightarrow> (False, w1\<lparr>cookieJar := jar\<rparr>)))))"

definition hasStoredSession :: "env \<Rightarrow> string \<Rightarrow> world \<Rightarrow> bool \<times> world" where
  "hasStoredSession e userEmail w =
     (let w1 = ensureCredentialStore userEmail w
      in case store_loadCredentials e w1 of
           None \<Rightarrow> (False, w1)
         | Some credentials \<Rightarrow>
             if password credentials = [] then (False, w1)
             else (case parse_session e (password credentials) of
                     NotJSON \<Rightarrow> (False, w1)
                   | JSONNull \<Rightarrow> (False, w1)
                   | JSONValue sessionData \<Rightarrow>
                       (case cookies sessionData of
                          None \<Rightarrow> (False, w1)
                        | Some cookieString \<Rightarrow> (cookieString \<noteq> [], w1))))"

definition startBrowserFlow :: "env \<Rightarrow> string \<Rightarrow> world \<Rightarrow> bool \<times> world" where
  "startBrowserFlow e userEmail w =
     (let w1 = ensureBrowserAuthServer userEmail w
      in case browserAuthServer w1 of
           None \<Rightarrow> (False, w1)
         | Some serverUser \<Rightarrow>
             (let (authResult, w2) = startAuthFlow_of e serverUser w1
              in if authResult then (True, w2\<lparr>isAuthenticated := True\<rparr>) else (False, w2)))"

definition authenticateWithBrowser :: "env \<Rightarrow> string \<Rightarrow> world \<Rightarrow> bool \<times> world" where
  "authenticateWithBrowser e userEmail w =
     (let (hasSession, w1) = hasStoredSession e userEmail w
      in if hasSession
         then (let (loaded, w2) = loadStoredSession e userEmail w1
               in case makeRequest e (baseUrl e @ ''/parent'') no_options w2 of
                    (Inr testResponse, w3) \<Rightarrow>
                       if probe_accepts testResponse then (True, w3\<lparr>isAuthenticated := True\<rparr>)
                       else startBrowserFlow e userEmail w3
                  | (Inl err, w3) \<Rightarrow> startBrowserFlow e userEmail w3)
         else startBrowserFlow e userEmail w1)"

text \<open>
  What \<open>ensureAuthenticated\<close> does once the stored session is missing or was not accepted.
  The stored text is only parsed here: a text that parses, to \<open>null\<close> or to anything else,
  leads to the browser login.
\<close>

definition reauthenticate :: "env \<Rightarrow> string \<Rightarrow> world \<Rightarrow> bool \<times> world" where
  "reauthenticate e userEmail w =
     (let w1 = ensureCredentialStore userEmail w
      in case store_loadCredentials e w1 of
           None \<Rightarrow> authenticateWithBrowser e userEmail w1
         | Some credentials \<Rightarrow>
             if password credentials = [] then authenticateWithBrowser e userEmail w1
             else (case parse_session e (password credentials) of
                     NotJSON \<Rightarrow> attemptPasswordLogin e userEmail (password credentials) w1
                   | JSONNull \<Rightarrow> authenticateWithBrowser e userEmail w1
                   | JSONValue sessionData \<Rightarrow> authenticateWithBrowser e userEmail w1))"

definition ensureAuthenticated :: "env \<Rightarrow> string \<Rightarrow> world \<Rightarrow> bool \<times> world" where
  "ensureAuthenticated e userEmail w =
     (if isAuthenticated w \<and> currentUserEmail w = Some userEmail then (True, w)
      else (let (sessionLoaded, w1) = loadStoredSession e userEmail w
            in if sessionLoaded
               then (case makeRequest e (baseUrl e @ ''/parent'') no_options w1 of
                       (Inr testResponse, w2) \<Rightarrow>
                          if probe_accepts testResponse then (True, w2)
                          else reauthenticate e userEmail w2
                     | (Inl err, w2) \<Rightarrow> reauthenticate e userEmail w2)
               else reauthenticate e userEmail w1))"

text \<open>
  \<open>makeAuthenticatedRequest\<close>. In the cross-domain branch only \<open>JSON.parse\<close> is inside a
  \<open>try\<close>: when the stored text parses to \<open>null\<close>, the test \<open>!sessionData.cookies\<close> that
  follows throws the \<open>TypeError\<close> of the runtime. On the same-domain path the value of
  \<open>ensureAuthenticated\<close> is not looked at; the request is made whether it is \<open>true\<close> or
  \<open>false\<close>.
\<close>

definition makeAuthenticatedRequest ::
  "env \<Rightarrow> string \<Rightarrow> options \<Rightarrow> world \<Rightarrow> (error + http_response) \<times> world" where
  "makeAuthenticatedRequest e u opts w =
     (case currentUserEmail w of
        None \<Rightarrow> (Inl (Error ''No user email set. Please authenticate first.''), w)
      | Some current \<Rightarrow>
          (case (hostname e u, hostname e (baseUrl e)) of
             (Some urlHost, Some baseUrlHost) \<Rightarrow>
               if urlHost \<noteq> baseUrlHost
               then (let w1 = ensureCredentialStore current w
                     in case store_loadCredentials e w1 of
                          None \<Rightarrow>
                            (Inl (Error ''No stored credentials found for cross-domain request''), w1)
                        | Some credentials \<Rightarrow>
                            if password credentials = []
                            then (Inl (Error ''No stored credentials found for cross-domain request''), w1)
                            else (case parse_session e (password credentials) of
                                    NotJSON \<Rightarrow>
                                      (Inl (Error ''Invalid session data for cross-domain request''), w1)
                                  | JSONNull \<Rightarrow> (Inl TypeError, w1)
                                  | JSONValue sessionData \<Rightarrow>
                                      (case cookies sessionData of
                                         None \<Rightarrow>
                                           (Inl (Error ''No session cookies found for cross-domain request''), w1)
                                       | Some cookieString \<Rightarrow>
                                           if cookieString = []
                                           then (Inl (Error ''No session cookies found for cross-domain request''), w1)
                                           else (case fetch
                                                        \<lparr>target = u,
                                                         headers = js_spread
                                                           [(''Cookie'', cookieString),
                                                            (''User-Agent'',
                                                               if userAgent sessionData = []
                                                               then userAgent_Chrome120
                                                               else userAgent sessionData)]
                                                           (headers_of opts),
                                                         init = opt_rest opts\<rparr> w1 of
                                                   (None, w2) \<Rightarrow> (Inl FetchFailed, w2)
                                                 | (Some r, w2) \<Rightarrow> (Inr r, w2)))))
               else (let (authenticated, w1) = ensureAuthenticated e current w
                     in makeRequest e u opts w1)
           | _ \<Rightarrow> (Inl InvalidURL, w)))"

text \<open>
  What is stored for the current user, as a cross-domain request meets it: the text of the
  stored session (\<open>None\<close> when no credentials decrypt or their \<open>password\<close> field is
  empty), whether that text is the JSON value \<open>null\<close>, and the stored session cookies a
  request can use, with the session they belong to (the text parses to a value whose cookie
  string is there and not empty).
\<close>

definition stored_session_text :: "env \<Rightarrow> string \<Rightarrow> world \<Rightarrow> string option" where
  "stored_session_text e current w =
     (case store_loadCredentials e (ensureCredentialStore current w) of
        None \<Rightarrow> None
      | Some credentials \<Rightarrow> if password credentials = [] then None else Some (password credentials))"

definition stored_session_is_null :: "env \<Rightarrow> string \<Rightarrow> world \<Rightarrow> bool" where
  "stored_session_is_null e current w =
     (case stored_session_text e current w of
        None \<Rightarrow> False
      | Some t \<Rightarrow> parse_session e t = JSONNull)"


section \<open>VeracrossAuth with stored browser sessions only\<close>

text \<open>
  The variant of the class in \<open>auth.ts\<close> that reads sessions through its
  \<open>BrowserAuthServer\<close>. \<open>BrowserAuthServer.getStoredSession\<close> drops a session whose
  \<open>expiresAt\<close> has passed, and returns \<open>null\<close> from its \<open>catch\<close> block when the text does
  not parse or parses to \<open>null\<close>. \<open>createCookieJar\<close> fills a new jar for the fixed portal
  URL; it splits \<open>sessionData.cookies\<close> outside any \<open>try\<close>, so it throws when the property
  is absent. Its result is \<open>None\<close> when it returns \<open>null\<close> or throws: \<open>loadStoredSession\<close>,
  its only caller, returns \<open>false\<close> in both cases.
\<close>

definition getStoredSession :: "env \<Rightarrow> time \<Rightarrow> string \<Rightarrow> world \<Rightarrow> SessionData option" where
  "getStoredSession e now serverUser w =
     (case loadCredentials (cipher e) (digest e) (lowerCase e) (masterKey e) serverUser (db w) of
        None \<Rightarrow> None
      | Some credentials \<Rightarrow>
          if password credentials = [] then None
          else (case parse_session e (password credentials) of
                  NotJSON \<Rightarrow> None
                | JSONNull \<Rightarrow> None
                | JSONValue sessionData \<Rightarrow>
                    (case sessionExpiresAt sessionData of
                       None \<Rightarrow> Some sessionData
                     | Some expiry \<Rightarrow> if now > expiry then None else Some sessionData)))"

definition createCookieJar :: "env \<Rightarrow> time \<Rightarrow> string \<Rightarrow> world \<Rightarrow> cookie_jar option" where
  "createCookieJar e now serverUser w =
     (case getStoredSession e now serverUser w of
        None \<Rightarrow> None
      | Some sessionData \<Rightarrow>
          (case cookies sessionData of
             None \<Rightarrow> None
           | Some cookieString \<Rightarrow>
               Some (setCookies_skipping (host_of e ''https://portals.veracross.com/csg'')
                       (map trim (split_on (CHR '';'') cookieString)) [])))"

definition loadStoredSession_browserOnly :: "env \<Rightarrow> time \<Rightarrow> string \<Rightarrow> world \<Rightarrow> bool \<times> world" where
  "loadStoredSession_browserOnly e now userEmail w =
     (let w1 = ensureBrowserAuthServer userEmail w
      in case browserAuthServer w1 of
           None \<Rightarrow> (False, w1)
         | Some serverUser \<Rightarrow>
             (case createCookieJar e now serverUser w1 of
                None \<Rightarrow> (False, w1)
              | Some jar \<Rightarrow> (True, w1\<lparr>cookieJar := jar, isAuthenticated := True\<rparr>)))"

definition ensureAuthenticated_browserOnly ::
  "env \<Rightarrow> time \<Rightarrow> string \<Rightarrow> world \<Rightarrow> (error + bool) \<times> world" where
  "ensureAuthenticated_browserOnly e now userEmail w =
     (if isAuthenticated w \<and> currentUserEmail w = Some userEmail then (Inr True, w)
      else (let (sessionLoaded, w1) = loadStoredSession_browserOnly e now userEmail w
            in if sessionLoaded
               then (case makeRequest e (baseUrl e @ ''/parent'') no_options w1 of
                       (Inr testResponse, w2) \<Rightarrow>
                          if probe_accepts testResponse then (Inr True, w2)
                          else (Inl (Error ''Browser authentication required. Please use the authenticate_browser tool first.''), w2)
                     | (Inl err, w2) \<Rightarrow>
                          (Inl (Error ''Browser authentication required. Please use the authenticate_browser tool first.''), w2))
               else (Inl (Error ''Browser authentication required. Please use the authenticate_browser tool first.''), w1)))"


section \<open>A concrete environment\<close>

text \<open>
  An environment and worlds to run the class on: the digest and the cipher are the
  identity (so a handle is the lower-cased e-mail and a stored text is read back as it
  was written), the stored text \<open>password1\<close> is not JSON, the text \<open>null\<close> is the JSON
  value \<open>null\<close>, any other text parses as a session whose cookie string is that text, and
  both fallback logins fail.
\<close>

definition example_env :: env where
  "example_env =
     \<lparr>digest = (\<lambda>s. s),
      lowerCase = toLowerCase,
      cipher = \<lparr>encrypt_with = (\<lambda>k i t. t), decrypt_with = (\<lambda>k i t. Some t),
                stringify_credentials = password,
                parse_credentials = (\<lambda>t. Some \<lparr>username = [], password = t\<rparr>)\<rparr>,
      masterKey = ''k'',
      baseUrl = ''https://portals.veracross.com/csg'',
      hostname = (\<lambda>u. if prefix ''https://portals.veracross.com'' u
                       then Some ''portals.veracross.com''
                       else if prefix ''https://accounts.veracross.com'' u
                       then Some ''accounts.veracross.com'' else None),
      parse_session = (\<lambda>t. if t = ''password1'' then NotJSON
                            else if t = ''null'' then JSONNull
                            else JSONValue \<lparr>cookies = Some t, userAgent = [], sessionTimestamp = 0,
                                            sessionExpiresAt = Some 86400000\<rparr>),
      attemptPasswordLogin = (\<lambda>u p w. (False, w)),
      startAuthFlow_of = (\<lambda>u w. (False, w))\<rparr>"


text \<open>The credentials collection after the session of \<open>b@x.com\<close> was saved.\<close>

definition example_db :: "EncryptedCredentialDocument list" where
  "example_db =
     saveCredentials (cipher example_env) (digest example_env) (lowerCase example_env) (masterKey example_env)
       ''b@x.com'' ''00'' 0
       \<lparr>username = ''b@x.com'', password = ''_veracross_session=B1''\<rparr> []"

text \<open>A fresh object, with a portal that answers the next request from its login page.\<close>

definition world_rejecting :: world where
  "world_rejecting =
     \<lparr>cookieJar = [], isAuthenticated = False, currentUserEmail = None,
      browserAuthServer = None, credentialStore = None, db = example_db,
      script = [Some \<lparr>status = 200, location = None, set_cookie = [],
                       url = ''https://portals.veracross.com/csg/login'', body = []\<rparr>],
      sent = []\<rparr>"

text \<open>
  An object that is serving \<open>a@x.com\<close>, with a cookie of that user in its jar, and a portal
  that accepts the next request.
\<close>

definition world_of_A :: world where
  "world_of_A =
     \<lparr>cookieJar = [(''portals.veracross.com'', ''remember_token'', ''A'')],
      isAuthenticated = True, currentUserEmail = Some ''a@x.com'',
      browserAuthServer = None, credentialStore = Some ''a@x.com'', db = example_db,
      script = [Some \<lparr>status = 200, location = None, set_cookie = [],
                       url = ''https://portals.veracross.com/csg/parent'', body = []\<rparr>],
      sent = []\<rparr>"

text \<open>An object that is serving \<open>b@x.com\<close>, about to make a request to another host.\<close>

definition world_of_B :: world where
  "world_of_B =
     \<lparr>cookieJar = [(''portals.veracross.com'', ''_veracross_session'', ''B0'')],
      isAuthenticated = True, currentUserEmail = Some ''b@x.com'',
      browserAuthServer = None, credentialStore = Some ''b@x.com'', db = example_db,
      script = [Some \<lparr>status = 200, location = None, set_cookie = [],
                       url = ''https://accounts.veracross.com/csg/portals'', body = []\<rparr>],
      sent = []\<rparr>"

text \<open>
  An object that has served \<open>b@x.com\<close> before and was logged out, with a portal that
  answers the next two requests from its login page.
\<close>

definition world_after_logout :: world where
  "world_after_logout =
     \<lparr>cookieJar = [], isAuthenticated = False, currentUserEmail = Some ''b@x.com'',
      browserAuthServer = Some ''b@x.com'', credentialStore = Some ''b@x.com'', db = example_db,
      script = [Some \<lparr>status = 200, location = None, set_cookie = [],
                       url = ''https://portals.veracross.com/csg/login'', body = []\<rparr>,
                Some \<lparr>status = 200, location = None, set_cookie = [],
                       url = ''https://portals.veracross.com/csg/login'', body = []\<rparr>],
      sent = []\<rparr>"

section \<open>BrowserAuthServer: the interactive login flow\<close>

text \<open>
  The object state that \<open>startAuthFlow\<close> and \<open>close\<close> use: the HTTP server (the port it
  listens on, \<open>None\<close> for \<open>null\<close>) and whether a resolver of the authentication promise is
  installed.
\<close>

record BrowserAuthServer =
  server :: "nat option"
  authResolve :: bool

text \<open>
  What happens around one invocation: the port \<open>getPort\<close> finds (\<open>None\<close> when it throws),
  whether \<open>open\<close> starts the browser or throws, and the requests that reach the listener
  while the flow waits, in order of arrival, each with the milliseconds since the wait
  began. A callback with session cookies and an accepted login submission resolve the
  promise with \<open>true\<close>, a callback whose handler throws resolves it with \<open>false\<close>, a
  callback without a valid session and a rejected login submission leave it pending.
\<close>

datatype flow_event =
    CallbackCaptured
  | CallbackWithoutSession
  | CallbackThrew
  | LoginSubmissionCaptured
  | LoginSubmissionRejected
  | OtherRequest

record flow_run =
  port_found :: "nat option"
  browser_opened :: bool
  arrivals :: "(nat \<times> flow_event) list"

fun resolves :: "flow_event \<Rightarrow> bool option" where
  "resolves CallbackCaptured = Some True"
| "resolves CallbackWithoutSession = None"
| "resolves CallbackThrew = Some False"
| "resolves LoginSubmissionCaptured = Some True"
| "resolves LoginSubmissionRejected = None"
| "resolves OtherRequest = None"

definition timeout_ms :: nat where
  "timeout_ms = 10 * 60 * 1000"

text \<open>
  \<open>Promise.race([this.authPromise, timeoutPromise])\<close>: the value and the time of the first
  resolution. The timer resolves with \<open>false\<close> at \<open>timeout_ms\<close>.
\<close>

fun race :: "(nat \<times> flow_event) list \<Rightarrow> bool \<times> nat" where
  "race [] = (False, timeout_ms)"
| "race ((t, ev) # rest) =
     (if timeout_ms \<le> t then (False, timeout_ms)
      else (case resolves ev of
              Some result \<Rightarrow> (result, t)
            | None \<Rightarrow> race rest))"

definition close :: "BrowserAuthServer \<Rightarrow> BrowserAuthServer" where
  "close s = (case server s of None \<Rightarrow> s | Some port \<Rightarrow> s\<lparr>server := None\<rparr>)"

text \<open>
  \<open>startAuthFlow\<close> returns its result; the model also gives the time spent waiting.
\<close>

definition startAuthFlow :: "flow_run \<Rightarrow> BrowserAuthServer \<Rightarrow> (bool \<times> nat) \<times> BrowserAuthServer" where
  "startAuthFlow flow s =
     (case port_found flow of
        None \<Rightarrow> ((False, 0), close s)
      | Some port \<Rightarrow>
          (let s1 = s\<lparr>server := Some port, authResolve := True\<rparr>
           in if \<not> browser_opened flow then ((False, 0), close s1)
              else (let (result, waited) = race (arrivals flow)
                    in ((result, waited), close s1))))"

section \<open>Reading a key text\<close>

text \<open>
  Notions for reasoning about \<open>JSON_stringify\<close>: the characters that are written as an
  escape, the text of one member \<open>"key":value\<close>, and the members an object contributes
  for a list of keys (those whose value is not \<open>undefined\<close>).
\<close>

definition needs_escape :: "char \<Rightarrow> bool" where
  "needs_escape c =
     (c = CHR 0x08 \<or> c = CHR 0x09 \<or> c = CHR 0x0A \<or> c = CHR 0x0C \<or> c = CHR 0x0D
      \<or> c = CHR 0x22 \<or> c = CHR 0x5C \<or> (of_char c :: nat) < 32)"

fun value_text :: "jsvalue \<Rightarrow> string" where
  "value_text (JString s) = json_quote s"
| "value_text (JBoolean b) = (if b then ''true'' else ''false'')"
| "value_text JUndefined = []"

definition member_text :: "string \<times> jsvalue \<Rightarrow> string" where
  "member_text kv = json_quote (fst kv) @ '':'' @ value_text (snd kv)"

definition defined_members :: "jsobject \<Rightarrow> string list \<Rightarrow> (string \<times> jsvalue) list" where
  "defined_members obj ks =
     map (\<lambda>k. (k, js_get obj k)) (filter (\<lambda>k. js_get obj k \<noteq> JUndefined) ks)"

text \<open>The properties the cache key leaves out.\<close>

definition volatile :: "string \<Rightarrow> bool" where
  "volatile k = (k = ''userEmail'' \<or> k = ''refresh'')"

definition searchParams_of :: "jsobject \<Rightarrow> jsobject" where
  "searchParams_of params = js_delete ''refresh'' (js_delete ''userEmail'' params)"

section \<open>Facts about collections\<close>

lemma updateOne_no_match: "\<not> list_ex p c \<Longrightarrow> updateOne p f c = c"
  by (induction c) auto

section \<open>The default-user flag\<close>

lemma clear_all_no_default:
  "filter isDefault (updateMany (\<lambda>_. True) (\<lambda>d. d\<lparr>isDefault := False\<rparr>) c) = []"
  by (induction c) (auto simp: updateMany_def)

lemma clear_defaults_no_default:
  "filter isDefault (updateMany isDefault (\<lambda>d. d\<lparr>isDefault := False\<rparr>) c) = []"
  by (induction c) (auto simp: updateMany_def)

lemma updateOne_sets_one:
  assumes "filter isDefault c = []" and "list_ex p c" and "\<And>d. isDefault (f d)"
  shows "length (filter isDefault (updateOne p f c)) = 1"
  using assms by (induction c) (auto split: if_splits)

lemma replaceOne_upsert_sets_one:
  assumes "filter isDefault c = []" and "isDefault doc"
  shows "length (filter isDefault (replaceOne_upsert p doc c)) = 1"
  using assms by (simp add: replaceOne_upsert_def updateOne_sets_one)

lemma addUser_default_one:
  "length (filter isDefault (addUser H L now em True c)) = 1"
  by (simp add: addUser_def Let_def replaceOne_upsert_sets_one clear_defaults_no_default)

lemma setDefaultUser_one:
  "length (filter isDefault (setDefaultUser H L now em c)) = 1"
proof -
  let ?c1 = "updateMany (\<lambda>_. True) (\<lambda>d. d\<lparr>isDefault := False\<rparr>) c"
  let ?p = "\<lambda>d. userHash d = hashEmail H L em"
  show ?thesis
  proof (cases "list_ex ?p ?c1")
    case True
    then show ?thesis
      by (simp add: setDefaultUser_def Let_def matchedCount_def updateOne_sets_one
          clear_all_no_default)
  next
    case False
    then show ?thesis
      by (simp add: setDefaultUser_def Let_def matchedCount_def addUser_default_one)
  qed
qed

lemma updateOne_append:
  "updateOne p f (xs @ ys) =
     (if list_ex p xs then updateOne p f xs @ ys else xs @ updateOne p f ys)"
  by (induction xs) auto

lemma updateMany_all_map: "updateMany (\<lambda>_. True) f c = map f c"
  by (simp add: updateMany_def)

lemma updateMany_none: "\<not> list_ex q c \<Longrightarrow> updateMany q f c = c"
  by (induction c) (auto simp: updateMany_def)

lemma list_ex_isDefault_clear:
  "\<not> list_ex isDefault (map (\<lambda>d. d\<lparr>isDefault := False\<rparr>) c)"
  by (induction c) auto

lemma list_ex_hash_clear:
  "list_ex (\<lambda>d. userHash d = uh) (map (\<lambda>d. d\<lparr>isDefault := False\<rparr>) c) =
   list_ex (\<lambda>d. userHash d = uh) c"
  by (induction c) auto

lemma list_ex_hash_updateOne:
  "list_ex (\<lambda>d. userHash d = uh)
     (updateOne (\<lambda>d. userHash d = uh) (\<lambda>d. d\<lparr>isDefault := True, lastUsed := t\<rparr>) c) =
   list_ex (\<lambda>d. userHash d = uh) c"
  by (induction c) auto

text \<open>Selecting the same user again after a clearing pass rewrites the same record.\<close>

lemma reselect:
  "updateOne (\<lambda>d. userHash d = uh) (\<lambda>d. d\<lparr>isDefault := True, lastUsed := t2\<rparr>)
     (map (\<lambda>d. d\<lparr>isDefault := False\<rparr>)
        (updateOne (\<lambda>d. userHash d = uh) (\<lambda>d. d\<lparr>isDefault := True, lastUsed := t1\<rparr>)
           (map (\<lambda>d. d\<lparr>isDefault := False\<rparr>) c)))
   = updateOne (\<lambda>d. userHash d = uh) (\<lambda>d. d\<lparr>isDefault := True, lastUsed := t2\<rparr>)
       (map (\<lambda>d. d\<lparr>isDefault := False\<rparr>) c)"
  by (induction c) (auto simp: comp_def)

lemma flags_ignore_lastUsed:
  "map identity_and_flag
     (updateOne (\<lambda>d. userHash d = uh) (\<lambda>d. d\<lparr>isDefault := True, lastUsed := t\<rparr>) xs)
   = map identity_and_flag
     (updateOne (\<lambda>d. userHash d = uh) (\<lambda>d. d\<lparr>isDefault := True, lastUsed := t'\<rparr>) xs)"
  by (induction xs) (auto simp: identity_and_flag_def)

text \<open>The two paths of \<open>setDefaultUser\<close>: the user is known, or is added as the default.\<close>

lemma setDefaultUser_present:
  "list_ex (\<lambda>d. userHash d = hashEmail H L em) c \<Longrightarrow>
   setDefaultUser H L now em c =
     updateOne (\<lambda>d. userHash d = hashEmail H L em) (\<lambda>d. d\<lparr>isDefault := True, lastUsed := now\<rparr>)
       (map (\<lambda>d. d\<lparr>isDefault := False\<rparr>) c)"
  by (simp add: setDefaultUser_def Let_def matchedCount_def updateMany_all_map
      list_ex_hash_clear)

lemma setDefaultUser_absent:
  "\<not> list_ex (\<lambda>d. userHash d = hashEmail H L em) c \<Longrightarrow>
   setDefaultUser H L now em c =
     map (\<lambda>d. d\<lparr>isDefault := False\<rparr>) c @
     [\<lparr>userHash = hashEmail H L em, email = L em, isDefault = True,
       createdAt = now, lastUsed = now\<rparr>]"
  by (simp add: setDefaultUser_def Let_def matchedCount_def updateMany_all_map
      list_ex_hash_clear updateOne_no_match addUser_def replaceOne_upsert_def
      updateMany_none list_ex_isDefault_clear)

lemma setDefaultUser_has_user:
  "list_ex (\<lambda>d. userHash d = hashEmail H L em) (setDefaultUser H L now em c)"
  by (cases "list_ex (\<lambda>d. userHash d = hashEmail H L em) c")
     (simp_all add: setDefaultUser_present setDefaultUser_absent list_ex_hash_updateOne
       list_ex_hash_clear)

lemma setDefaultUser_again:
  "setDefaultUser H L now em (setDefaultUser H L now em c) = setDefaultUser H L now em c"
proof (cases "list_ex (\<lambda>d. userHash d = hashEmail H L em) c")
  case True
  then show ?thesis
    by (simp add: setDefaultUser_present [OF setDefaultUser_has_user])
       (simp add: setDefaultUser_present reselect)
next
  case False
  then show ?thesis
    by (simp add: setDefaultUser_present [OF setDefaultUser_has_user])
       (simp add: setDefaultUser_absent updateOne_append list_ex_hash_clear comp_def)
qed

lemma setDefaultUser_again_flags:
  "map identity_and_flag (setDefaultUser H L t2 em (setDefaultUser H L t1 em c))
   = map identity_and_flag (setDefaultUser H L t1 em c)"
proof (cases "list_ex (\<lambda>d. userHash d = hashEmail H L em) c")
  case True
  then show ?thesis
    by (simp add: setDefaultUser_present [OF setDefaultUser_has_user])
       (simp add: setDefaultUser_present reselect flags_ignore_lastUsed [where t = t2 and t' = t1])
next
  case False
  then show ?thesis
    by (simp add: setDefaultUser_present [OF setDefaultUser_has_user])
       (simp add: setDefaultUser_absent updateOne_append list_ex_hash_clear comp_def
         identity_and_flag_def)
qed

text \<open>Whose record carries the flag afterwards.\<close>

lemma updateOne_default_owner:
  assumes "filter isDefault c = []" and "list_ex p c" and "\<And>d. isDefault (f d)"
    and "\<And>d. p d \<Longrightarrow> userHash (f d) = uh"
  shows "map userHash (filter isDefault (updateOne p f c)) = [uh]"
  using assms by (induction c) (auto split: if_splits)

lemma addUser_default_owner:
  "map userHash (filter isDefault (addUser H L now em True c)) = [hashEmail H L em]"
  by (simp add: addUser_def Let_def replaceOne_upsert_def updateOne_default_owner
      clear_defaults_no_default)

lemma setDefaultUser_default_owner:
  "map userHash (filter isDefault (setDefaultUser H L now em c)) = [hashEmail H L em]"
proof (cases "list_ex (\<lambda>d. userHash d = hashEmail H L em) c")
  case True
  then show ?thesis
    by (simp add: setDefaultUser_present updateOne_default_owner list_ex_hash_clear
        clear_all_no_default [unfolded updateMany_all_map])
next
  case False
  then show ?thesis
    by (simp add: setDefaultUser_absent clear_all_no_default [unfolded updateMany_all_map])
qed

text \<open>
  Claim C10. \<open>setDefaultUser\<close> is idempotent: calling it again for the same user leaves
  the collection as the first call left it when the clock reads the same, and leaves every
  record's identity and default flag as they were whatever the clock reads (only the
  user's \<open>lastUsed\<close> moves). After \<open>setDefaultUser\<close>, and after \<open>addUser\<close> with the
  default flag, exactly one record has \<open>isDefault = true\<close>, and it is the record of the
  user named in the call; since the call leaves that user's record in the collection,
  this is "at most one, and exactly one when a user exists".
\<close>

theorem setDefaultUser_idempotent_one_default:
  "setDefaultUser H L now em (setDefaultUser H L now em c) = setDefaultUser H L now em c \<and>
   map identity_and_flag (setDefaultUser H L t2 em (setDefaultUser H L t1 em c))
     = map identity_and_flag (setDefaultUser H L t1 em c) \<and>
   length (filter isDefault (setDefaultUser H L now em c)) = 1 \<and>
   map userHash (filter isDefault (setDefaultUser H L now em c)) = [hashEmail H L em] \<and>
   length (filter isDefault (addUser H L now em True c)) = 1 \<and>
   map userHash (filter isDefault (addUser H L now em True c)) = [hashEmail H L em]"
  by (simp add: setDefaultUser_again setDefaultUser_again_flags setDefaultUser_one
      setDefaultUser_default_owner addUser_default_one addUser_default_owner)

section \<open>Expiry at read time\<close>

lemma find_Some_holds: "find p c = Some d \<Longrightarrow> d \<in> set c \<and> p d"
  by (induction c) (auto split: if_splits)

lemma find_None_iff_no_match: "(find p c = None) = (\<forall>d\<in>set c. \<not> p d)"
  by (induction c) auto

lemma MongoSearchCache_get_hit:
  assumes "MongoSearchCache_get H L u params now c = Some x"
  shows "\<exists>d\<in>set c. data d = x \<and> entryUserHash d = hashEmail H L u
           \<and> searchHash d = getCacheKey H params \<and> now < expiresAt d"
  using assms
  by (auto simp: MongoSearchCache_get_def findOne_def split: option.splits
      dest!: find_Some_holds)

lemma MongoSearchCache_get_all_expired:
  assumes "\<forall>d\<in>set c. entryUserHash d = hashEmail H L u \<and> searchHash d = getCacheKey H params
             \<longrightarrow> expiresAt d \<le> now"
  shows "MongoSearchCache_get H L u params now c = None"
proof -
  have "find (\<lambda>d. entryUserHash d = hashEmail H L u \<and> searchHash d = getCacheKey H params
                  \<and> expiresAt d > now) c = None"
    using assms by (force simp: find_None_iff_no_match)
  then show ?thesis
    by (simp add: MongoSearchCache_get_def findOne_def)
qed

lemma replaceOne_upsert_fresh: "\<not> list_ex p c \<Longrightarrow> replaceOne_upsert p doc c = c @ [doc]"
  by (simp add: replaceOne_upsert_def)

lemma MongoSearchCache_set_then_expired:
  assumes fresh: "\<forall>d\<in>set c. \<not> (entryUserHash d = hashEmail H L u
                     \<and> searchHash d = getCacheKey H params)"
    and late: "now + lifetimeHours * 60 * 60 * 1000 \<le> now'"
  shows "MongoSearchCache_get H L u params now'
           (MongoSearchCache_set H L u params dat lifetimeHours now c) = None"
    and "\<exists>d\<in>set (MongoSearchCache_set H L u params dat lifetimeHours now c).
           entryUserHash d = hashEmail H L u \<and> searchHash d = getCacheKey H params \<and> data d = dat"
proof -
  have no: "\<not> list_ex (\<lambda>d. entryUserHash d = hashEmail H L u \<and> searchHash d = getCacheKey H params) c"
    using fresh by (simp add: list_ex_iff)
  have eq: "MongoSearchCache_set H L u params dat lifetimeHours now c =
      c @ [\<lparr>entryUserHash = hashEmail H L u, searchHash = getCacheKey H params, data = dat,
            timestamp = now, expiresAt = now + lifetimeHours * 60 * 60 * 1000\<rparr>]"
    using no by (simp add: MongoSearchCache_set_def Let_def replaceOne_upsert_fresh)
  show "MongoSearchCache_get H L u params now'
           (MongoSearchCache_set H L u params dat lifetimeHours now c) = None"
    unfolding eq using fresh late by (intro MongoSearchCache_get_all_expired) auto
  show "\<exists>d\<in>set (MongoSearchCache_set H L u params dat lifetimeHours now c).
           entryUserHash d = hashEmail H L u \<and> searchHash d = getCacheKey H params \<and> data d = dat"
    unfolding eq by simp
qed

lemma SearchCache_get_expired:
  assumes "fs (getCacheFilePath H L home u params) = Some contents" and "parse contents = Some e"
    and "fileExpiresAt e < now"
  shows "SearchCache_get H L home parse u params now fs = None"
  using assms by (simp add: SearchCache_get_def)

text \<open>
  Claim C8. A cached result read after its expiry time has passed is a miss, although the
  expired row is still in the backing store. For the MongoDB cache: a hit always comes from
  a row of the user and query whose \<open>expiresAt\<close> lies strictly after the time of the read;
  when every row of the user and query has expired the read is a miss; and a row written
  by \<open>set\<close> is still in the collection, but no longer read, once its lifetime is over.
  For the file cache: a file whose entry has \<open>expiresAt\<close> before the time of the read is a
  miss.
\<close>

theorem expired_entry_is_a_miss:
  "(MongoSearchCache_get H L u params now c = Some x \<longrightarrow>
      (\<exists>d\<in>set c. data d = x \<and> entryUserHash d = hashEmail H L u
          \<and> searchHash d = getCacheKey H params \<and> now < expiresAt d)) \<and>
   ((\<forall>d\<in>set c. entryUserHash d = hashEmail H L u \<and> searchHash d = getCacheKey H params
          \<longrightarrow> expiresAt d \<le> now) \<longrightarrow>
      MongoSearchCache_get H L u params now c = None) \<and>
   ((\<forall>d\<in>set c. \<not> (entryUserHash d = hashEmail H L u \<and> searchHash d = getCacheKey H params))
      \<and> now + lifetimeHours * 60 * 60 * 1000 \<le> now' \<longrightarrow>
      MongoSearchCache_get H L u params now'
        (MongoSearchCache_set H L u params dat lifetimeHours now c) = None \<and>
      (\<exists>d\<in>set (MongoSearchCache_set H L u params dat lifetimeHours now c).
          entryUserHash d = hashEmail H L u \<and> searchHash d = getCacheKey H params \<and> data d = dat)) \<and>
   (fs (getCacheFilePath H L home u params) = Some contents \<and> parse contents = Some e
      \<and> fileExpiresAt e < now \<longrightarrow>
      SearchCache_get H L home parse u params now fs = None)"
  using MongoSearchCache_get_hit [of H L u params now c x]
    MongoSearchCache_get_all_expired [of c H L u params now]
    MongoSearchCache_set_then_expired [of c H L u params now lifetimeHours now' dat]
    SearchCache_get_expired [of fs H L home u params contents parse e now]
  by blast

theorem expired_entry_is_a_miss_witness:
  "MongoSearchCache_get (\<lambda>s. s) toLowerCase ''a@x.com'' [(''lastName'', JString ''Smith'')] 50
     [\<lparr>entryUserHash = hashEmail (\<lambda>s. s) toLowerCase ''a@x.com'',
       searchHash = getCacheKey (\<lambda>s. s) [(''lastName'', JString ''Smith'')],
       data = 7 :: nat, timestamp = 0, expiresAt = 100\<rparr>] = Some 7 \<and>
   MongoSearchCache_get (\<lambda>s. s) toLowerCase ''a@x.com'' [(''lastName'', JString ''Smith'')] 100
     [\<lparr>entryUserHash = hashEmail (\<lambda>s. s) toLowerCase ''a@x.com'',
       searchHash = getCacheKey (\<lambda>s. s) [(''lastName'', JString ''Smith'')],
       data = 7 :: nat, timestamp = 0, expiresAt = 100\<rparr>] = None \<and>
   MongoSearchCache_get (\<lambda>s. s) toLowerCase ''a@x.com'' [(''lastName'', JString ''Smith'')] 86400000
     (MongoSearchCache_set (\<lambda>s. s) toLowerCase ''a@x.com'' [(''lastName'', JString ''Smith'')] (7 :: nat)
        24 0 []) = None \<and>
   SearchCache_get (\<lambda>s. s) toLowerCase ''/home/p''
     (\<lambda>_. Some \<lparr>fileData = 7 :: nat, fileTimestamp = 0, fileExpiresAt = 10\<rparr>)
     ''a@x.com'' [(''lastName'', JString ''Smith'')] 11
     [getCacheFilePath (\<lambda>s. s) toLowerCase ''/home/p'' ''a@x.com'' [(''lastName'', JString ''Smith'')]
        \<mapsto> ''{}''] = None"
proof -
  let ?H = "\<lambda>s :: string. s"
  let ?L = "toLowerCase"
  let ?ps = "[(''lastName'', JString ''Smith'')]"
  let ?row = "\<lparr>entryUserHash = hashEmail ?H ?L ''a@x.com'', searchHash = getCacheKey ?H ?ps,
       data = 7 :: nat, timestamp = 0, expiresAt = 100\<rparr>"
  have hit: "MongoSearchCache_get ?H ?L ''a@x.com'' ?ps 50 [?row] = Some 7"
    by (simp add: MongoSearchCache_get_def findOne_def)
  have a: "\<exists>d\<in>set [?row]. data d = 7 \<and> entryUserHash d = hashEmail ?H ?L ''a@x.com''
          \<and> searchHash d = getCacheKey ?H ?ps \<and> 50 < expiresAt d"
    using expired_entry_is_a_miss [where H = ?H and L = ?L and u = "''a@x.com''" and params = ?ps
        and now = 50 and c = "[?row]" and x = 7, THEN conjunct1] hit
    by blast
  have b: "MongoSearchCache_get ?H ?L ''a@x.com'' ?ps 100 [?row] = None"
    using expired_entry_is_a_miss [where H = ?H and L = ?L and u = "''a@x.com''" and params = ?ps
        and now = 100 and c = "[?row]", THEN conjunct2, THEN conjunct1]
    by simp
  have c: "MongoSearchCache_get ?H ?L ''a@x.com'' ?ps 86400000
     (MongoSearchCache_set ?H ?L ''a@x.com'' ?ps (7 :: nat) 24 0 []) = None"
    using expired_entry_is_a_miss [where H = ?H and L = ?L and u = "''a@x.com''" and params = ?ps
        and now = 0 and c = "[]" and lifetimeHours = 24 and now' = 86400000 and dat = "7::nat",
        THEN conjunct2, THEN conjunct2, THEN conjunct1]
    by simp
  have d: "SearchCache_get ?H ?L ''/home/p''
     (\<lambda>_. Some \<lparr>fileData = 7 :: nat, fileTimestamp = 0, fileExpiresAt = 10\<rparr>)
     ''a@x.com'' ?ps 11 [getCacheFilePath ?H ?L ''/home/p'' ''a@x.com'' ?ps \<mapsto> ''{}''] = None"
    using expired_entry_is_a_miss [where H = ?H and L = ?L and u = "''a@x.com''" and params = ?ps
        and home = "''/home/p''" and now = 11 
        and parse = "\<lambda>_. Some \<lparr>fileData = 7 :: nat, fileTimestamp = 0, fileExpiresAt = 10\<rparr>"
        and fs = "[getCacheFilePath ?H ?L ''/home/p'' ''a@x.com'' ?ps \<mapsto> ''{}'']"
        and contents = "''{}''" and e = "\<lparr>fileData = 7 :: nat, fileTimestamp = 0, fileExpiresAt = 10\<rparr>",
        THEN conjunct2, THEN conjunct2, THEN conjunct2]
    by simp
  from hit a b c d show ?thesis by simp
qed

section \<open>Partition isolation\<close>






























text \<open>
  Such identities exist for every digest function: there are infinitely many e-mails and
  finitely many texts of at most 16 characters.
\<close>

lemma toLowerCase_letter_a:
  "toLowerCase (replicate n (CHR ''a'') @ ''@x.com'') = replicate n (CHR ''a'') @ ''@x.com''"
  by (simp add: toLowerCase_def lower_char_def)

lemma truncated_handles_collide:
  "\<exists>A B. toLowerCase A \<noteq> toLowerCase B
         \<and> hashEmail H toLowerCase A = hashEmail H toLowerCase B"
proof -
  let ?g = "\<lambda>n. replicate n (CHR ''a'') @ ''@x.com''"
  let ?f = "\<lambda>s. take 16 (H s)"
  have "inj ?g"
    by (rule injI) (auto dest: arg_cong [where f = length])
  then have inf: "infinite (range ?g)"
    by (simp add: finite_image_iff)
  have "?f ` range ?g \<subseteq> {xs. set xs \<subseteq> UNIV \<and> length xs \<le> 16}"
    by auto
  moreover have "finite {xs :: string. set xs \<subseteq> UNIV \<and> length xs \<le> 16}"
    by (rule finite_lists_length_le) simp
  ultimately have "finite (?f ` range ?g)"
    by (rule finite_subset)
  then have "\<not> inj_on ?f (range ?g)"
    using inf finite_imageD by blast
  then obtain m n where "?g m \<noteq> ?g n" and "?f (?g m) = ?f (?g n)"
    unfolding inj_on_def by blast
  then have "toLowerCase (?g m) \<noteq> toLowerCase (?g n)
      \<and> hashEmail H toLowerCase (?g m) = hashEmail H toLowerCase (?g n)"
    by (simp only: hashEmail_def toLowerCase_letter_a simp_thms)
  then show ?thesis by blast
qed

text \<open>
  Identities with the same handle share the cache: what one of them wrote is returned to
  the other until it expires.
\<close>

lemma find_replaceOne_upsert_new:
  assumes "K doc" and "q doc"
  shows "find (\<lambda>d. K d \<and> q d) (replaceOne_upsert K doc c) = Some doc"
proof (cases "list_ex K c")
  case True
  then have "find (\<lambda>d. K d \<and> q d) (updateOne K (\<lambda>_. doc) c) = Some doc"
    using assms by (induction c) auto
  then show ?thesis using True by (simp add: replaceOne_upsert_def)
next
  case False
  then have "find (\<lambda>d. K d \<and> q d) (c @ [doc]) = Some doc"
    using assms by (induction c) auto
  then show ?thesis using False by (simp add: replaceOne_upsert_def)
qed

lemma same_handle_shares_cache:
  assumes same: "hashEmail H L A = hashEmail H L B"
    and fresh: "t' < t + hours * 60 * 60 * 1000"
  shows "MongoSearchCache_get H L B ps t' (MongoSearchCache_set H L A ps dat hours t c)
           = Some dat"
proof -
  let ?K = "\<lambda>d. entryUserHash d = hashEmail H L B \<and> searchHash d = getCacheKey H ps"
  let ?doc = "\<lparr>entryUserHash = hashEmail H L B, searchHash = getCacheKey H ps, data = dat,
                timestamp = t, expiresAt = t + hours * 60 * 60 * 1000\<rparr>"
  have set_eq: "MongoSearchCache_set H L A ps dat hours t c = replaceOne_upsert ?K ?doc c"
    by (simp add: MongoSearchCache_set_def Let_def same)
  have "find (\<lambda>d. ?K d \<and> expiresAt d > t') (replaceOne_upsert ?K ?doc c) = Some ?doc"
    using fresh by (intro find_replaceOne_upsert_new) simp_all
  then show ?thesis
    unfolding set_eq by (simp add: MongoSearchCache_get_def findOne_def conj_assoc)
qed

section \<open>Key derivation\<close>

lemma lower_char_idem: "lower_char (lower_char c) = lower_char c"
  by (simp add: lower_char_def)

lemma toLowerCase_idem: "toLowerCase (toLowerCase s) = toLowerCase s"
  by (simp add: toLowerCase_def lower_char_idem)

lemma hashEmail_ignores_case: "hashEmail H toLowerCase (toLowerCase u) = hashEmail H toLowerCase u"
  by (simp add: hashEmail_def toLowerCase_idem)

text \<open>
  Claim C5 says that the encryption key is the digest of the master key followed by the
  lower-cased identity, so that two spellings of an identity that differ in case share a
  key. \<open>deriveKey\<close> hashes the master key followed by the e-mail as the constructor
  received it: for \<open>Parent@Example.com\<close> and \<open>parent@example.com\<close> the two keys are the
  digests of two different texts, although \<open>hashEmail\<close> gives both spellings the same
  document.
\<close>

theorem deriveKey_keeps_letter_case:
  "deriveKey H mk ''Parent@Example.com'' = H (mk @ ''Parent@Example.com'') \<and>
   deriveKey H mk ''parent@example.com'' = H (mk @ ''parent@example.com'') \<and>
   toLowerCase ''Parent@Example.com'' = ''parent@example.com'' \<and>
   mk @ ''Parent@Example.com'' \<noteq> mk @ toLowerCase ''Parent@Example.com'' \<and>
   hashEmail H toLowerCase ''Parent@Example.com'' = hashEmail H toLowerCase ''parent@example.com''"
  by (simp add: deriveKey_def hashEmail_def toLowerCase_def lower_char_def)

section \<open>Classifying the login response\<close>

text \<open>
  Claim C3, as amended. \<open>handleLoginSubmission\<close> classifies the attempt as successful
  exactly when the response has status 302 with a non-empty \<open>Location\<close> that does not
  contain \<open>login\<close>, or has status 200 with a body that contains none of \<open>Invalid\<close>,
  \<open>incorrect\<close>, \<open>error\<close> and does contain \<open>parent\<close>. Every other response is a failure;
  every success satisfies the rule of the specification, so no response outside that rule
  is taken for a success.
\<close>

theorem loginSuccessful_strict:
  "loginSuccessful r =
     ((status r = 302 \<and> (\<exists>l. location r = Some l \<and> l \<noteq> [] \<and> \<not> str_includes l ''login''))
      \<or> (status r = 200 \<and> \<not> str_includes (body r) ''Invalid''
           \<and> \<not> str_includes (body r) ''incorrect'' \<and> \<not> str_includes (body r) ''error''
           \<and> str_includes (body r) ''parent'')) \<and>
   (loginSuccessful r \<longrightarrow> stated_login_success [''Invalid'', ''incorrect'', ''error''] r) \<and>
   (\<not> stated_login_success [''Invalid'', ''incorrect'', ''error''] r \<longrightarrow> \<not> loginSuccessful r)"
  by (auto simp: loginSuccessful_def stated_login_success_def location_away_from_login_def
      split: option.splits)

theorem loginSuccessful_strict_witness:
  "loginSuccessful \<lparr>status = 302, location = Some ''/csg/parent'', set_cookie = [],
      url = ''https://portals.veracross.com/csg/login'', body = []\<rparr> \<and>
   stated_login_success [''Invalid'', ''incorrect'', ''error'']
     \<lparr>status = 302, location = Some ''/csg/parent'', set_cookie = [],
      url = ''https://portals.veracross.com/csg/login'', body = []\<rparr> \<and>
   \<not> stated_login_success [''Invalid'', ''incorrect'', ''error'']
     \<lparr>status = 500, location = None, set_cookie = [],
      url = ''https://portals.veracross.com/csg/login'', body = ''Service unavailable''\<rparr> \<and>
   \<not> loginSuccessful
     \<lparr>status = 500, location = None, set_cookie = [],
      url = ''https://portals.veracross.com/csg/login'', body = ''Service unavailable''\<rparr>"
proof -
  let ?good = "\<lparr>status = 302, location = Some ''/csg/parent'', set_cookie = [],
      url = ''https://portals.veracross.com/csg/login'', body = []\<rparr>"
  let ?bad = "\<lparr>status = 500, location = None, set_cookie = [],
      url = ''https://portals.veracross.com/csg/login'', body = ''Service unavailable''\<rparr>"
  have g: "loginSuccessful ?good"
    by (simp add: loginSuccessful_def location_away_from_login_def)
  have b: "\<not> stated_login_success [''Invalid'', ''incorrect'', ''error''] ?bad"
    by (simp add: stated_login_success_def)
  from g have "stated_login_success [''Invalid'', ''incorrect'', ''error''] ?good"
    using loginSuccessful_strict [of ?good] by blast
  moreover from b have "\<not> loginSuccessful ?bad"
    using loginSuccessful_strict [of ?bad] by blast
  ultimately show ?thesis using g b by blast
qed

text \<open>
  The claim as stated fails on \<open>handleLoginSubmission\<close>: a 200 response whose body has no
  failure marker, and no \<open>parent\<close> either, is a success by the stated rule and a failure
  in the code.
\<close>

theorem loginSuccessful_counterexample:
  "stated_login_success [''Invalid'', ''incorrect'', ''error'']
     \<lparr>status = 200, location = None, set_cookie = [],
      url = ''https://portals.veracross.com/csg/login'', body = ''Welcome''\<rparr> \<and>
   \<not> loginSuccessful
     \<lparr>status = 200, location = None, set_cookie = [],
      url = ''https://portals.veracross.com/csg/login'', body = ''Welcome''\<rparr>"
  by (simp add: stated_login_success_def loginSuccessful_def)

text \<open>
  The password variant \<open>VeracrossAuth.login\<close> goes on to the body test after any response,
  and takes a body without \<open>Invalid\<close> and \<open>error\<close> for a success whatever the status.
\<close>

lemma login_result_any_status:
  "\<not> str_includes (body r) ''Invalid'' \<Longrightarrow> \<not> str_includes (body r) ''error'' \<Longrightarrow> login_result r"
  by (simp add: login_result_def)

lemma login_result_server_error:
  "login_result \<lparr>status = 500, location = None, set_cookie = [],
      url = ''https://portals.veracross.com/csg/login'', body = ''Service unavailable''\<rparr> \<and>
   \<not> stated_login_success [''Invalid'', ''error'']
     \<lparr>status = 500, location = None, set_cookie = [],
      url = ''https://portals.veracross.com/csg/login'', body = ''Service unavailable''\<rparr>"
  by (simp add: login_result_def stated_login_success_def location_away_from_login_def)

section \<open>Cross-domain requests\<close>







lemma ensureCredentialStore_keeps:
  "cookieJar (ensureCredentialStore u w) = cookieJar w"
  "sent (ensureCredentialStore u w) = sent w"
  "script (ensureCredentialStore u w) = script w"
  "db (ensureCredentialStore u w) = db w"
  by (simp_all add: ensureCredentialStore_def)



text \<open>The cross-domain branch, by what is stored for the current user.\<close>

lemma cross_domain_branch:
  assumes "currentUserEmail w = Some current" and "hostname e u = Some urlHost"
    and "hostname e (baseUrl e) = Some baseUrlHost" and "urlHost \<noteq> baseUrlHost"
  shows "makeAuthenticatedRequest e u opts w =
     (case stored_session_text e current w of
        None \<Rightarrow>
          (Inl (Error ''No stored credentials found for cross-domain request''),
           ensureCredentialStore current w)
      | Some t \<Rightarrow>
          (case parse_session e t of
             NotJSON \<Rightarrow>
               (Inl (Error ''Invalid session data for cross-domain request''),
                ensureCredentialStore current w)
           | JSONNull \<Rightarrow> (Inl TypeError, ensureCredentialStore current w)
           | JSONValue sessionData \<Rightarrow>
               (case cookies sessionData of
                  None \<Rightarrow>
                    (Inl (Error ''No session cookies found for cross-domain request''),
                     ensureCredentialStore current w)
                | Some cookieString \<Rightarrow>
                    if cookieString = []
                    then (Inl (Error ''No session cookies found for cross-domain request''),
                          ensureCredentialStore current w)
                    else (case fetch \<lparr>target = u,
                                      headers = js_spread
                                        [(''Cookie'', cookieString),
                                         (''User-Agent'',
                                            if userAgent sessionData = [] then userAgent_Chrome120
                                            else userAgent sessionData)] (headers_of opts),
                                      init = opt_rest opts\<rparr> (ensureCredentialStore current w) of
                            (None, w2) \<Rightarrow> (Inl FetchFailed, w2)
                          | (Some r, w2) \<Rightarrow> (Inr r, w2)))))"
  using assms
  by (simp add: makeAuthenticatedRequest_def stored_session_text_def Let_def
      split: option.splits parsed_session.splits)



text \<open>
  The stored text is \<open>null\<close>: the \<open>TypeError\<close> of the runtime, which carries no label of
  the code, and no request.
\<close>

lemma cross_domain_null_session:
  assumes "currentUserEmail w = Some current" and "hostname e u = Some urlHost"
    and "hostname e (baseUrl e) = Some baseUrlHost" and "urlHost \<noteq> baseUrlHost"
    and null: "stored_session_is_null e current w"
  shows "fst (makeAuthenticatedRequest e u opts w) = Inl TypeError"
    and "sent (snd (makeAuthenticatedRequest e u opts w)) = sent w"
  using null
  by (simp_all add: cross_domain_branch [OF assms(1-4)] stored_session_is_null_def
      ensureCredentialStore_keeps split: option.splits)


section \<open>Running the class in the concrete environment\<close>

lemma example_hash: "hashEmail (\<lambda>s. s) toLowerCase ''b@x.com'' = ''b@x.com''"
  by (simp add: hashEmail_def toLowerCase_def lower_char_def)

lemma example_db_eq:
  "example_db = [\<lparr>docUserHash = ''b@x.com'', encryptedCredentials = ''_veracross_session=B1'',
                   iv = ''00'', docCreatedAt = 0, updatedAt = 0\<rparr>]"
  by (simp add: example_db_def example_env_def saveCredentials_def replaceOne_upsert_def
      example_hash deriveKey_def)

lemma example_load:
  "loadCredentials (cipher example_env) (digest example_env) (lowerCase example_env) (masterKey example_env) ''b@x.com''
     example_db = Some \<lparr>username = [], password = ''_veracross_session=B1''\<rparr>"
  by (simp add: example_db_eq example_env_def loadCredentials_def findOne_def example_hash)

lemma example_cookies:
  "map trim (split_on (CHR '';'') ''_veracross_session=B1'') = [''_veracross_session=B1'']"
  by (simp add: trim_def is_space_def)


lemma example_hosts:
  "host_of example_env (baseUrl example_env) = ''portals.veracross.com''"
  "host_of example_env (baseUrl example_env @ ''/parent'') = ''portals.veracross.com''"
  "host_of example_env ''https://portals.veracross.com/csg'' = ''portals.veracross.com''"
  "hostname example_env (baseUrl example_env) = Some ''portals.veracross.com''"
  "hostname example_env ''https://accounts.veracross.com/csg/portals'' = Some ''accounts.veracross.com''"
  by (simp_all add: host_of_def example_env_def)

lemma example_session:
  "parse_session example_env ''_veracross_session=B1'' =
     JSONValue \<lparr>cookies = Some ''_veracross_session=B1'', userAgent = [], sessionTimestamp = 0,
                sessionExpiresAt = Some 86400000\<rparr>"
  by (simp add: example_env_def)

text \<open>The first call: the session loads, the probe is answered from the login page.\<close>

lemma rejecting_load:
  "loadStoredSession_browserOnly example_env 50 ''b@x.com'' world_rejecting =
     (True, world_rejecting\<lparr>browserAuthServer := Some ''b@x.com'',
                            currentUserEmail := Some ''b@x.com'',
                            isAuthenticated := True,
                            cookieJar := [(''portals.veracross.com'', ''_veracross_session'', ''B1'')]\<rparr>)"
  by (simp add: loadStoredSession_browserOnly_def ensureBrowserAuthServer_def world_rejecting_def
      createCookieJar_def getStoredSession_def example_load example_session example_cookies
      example_hosts setCookie_def parse_cookie_def Let_def trim_def is_space_def)


lemma rejecting_first_call:
  "ensureAuthenticated_browserOnly example_env 50 ''b@x.com'' world_rejecting =
     (Inl (Error ''Browser authentication required. Please use the authenticate_browser tool first.''),
      world_rejecting\<lparr>browserAuthServer := Some ''b@x.com'',
                       currentUserEmail := Some ''b@x.com'',
                       isAuthenticated := True,
                       cookieJar := [(''portals.veracross.com'', ''_veracross_session'', ''B1'')],
                       script := [],
                       sent := [\<lparr>target = ''https://portals.veracross.com/csg/parent'',
                                 headers = [(''Cookie'', ''_veracross_session=B1''),
                                            (''User-Agent'', userAgent_Chrome91)],
                                 init = []\<rparr>]\<rparr>)"
  by (simp add: ensureAuthenticated_browserOnly_def rejecting_load)
     (simp add: world_rejecting_def makeRequest_def example_hosts getCookieString_def fetch_def
       no_options_def headers_of_def probe_accepts_def ok_def example_env_def host_of_def)


text \<open>The guards leave the jar alone.\<close>

lemma guards_keep_cookieJar:
  "cookieJar (ensureCredentialStore u w) = cookieJar w"
  "cookieJar (ensureBrowserAuthServer u w) = cookieJar w"
  by (simp_all add: ensureCredentialStore_def ensureBrowserAuthServer_def)

lemma guards_reset_flag:
  "currentUserEmail w \<noteq> Some u \<Longrightarrow> \<not> isAuthenticated (ensureCredentialStore u w)"
  "currentUserEmail w \<noteq> Some u \<Longrightarrow> \<not> isAuthenticated (ensureBrowserAuthServer u w)"
  by (simp_all add: ensureCredentialStore_def ensureBrowserAuthServer_def)

lemma switch_load:
  "loadStoredSession example_env ''b@x.com'' world_of_A =
     (True, world_of_A\<lparr>credentialStore := Some ''b@x.com'',
                        currentUserEmail := Some ''b@x.com'',
                        isAuthenticated := True,
                        cookieJar := [(''portals.veracross.com'', ''remember_token'', ''A''),
                                      (''portals.veracross.com'', ''_veracross_session'', ''B1'')]\<rparr>)"
  by (simp add: loadStoredSession_def ensureCredentialStore_def world_of_A_def
      store_loadCredentials_def example_load example_session 
      example_hosts setCookie_def parse_cookie_def Let_def trim_def is_space_def)

lemma switch_call:
  "ensureAuthenticated example_env ''b@x.com'' world_of_A =
     (True,
      world_of_A\<lparr>credentialStore := Some ''b@x.com'',
                  currentUserEmail := Some ''b@x.com'',
                  isAuthenticated := True,
                  cookieJar := [(''portals.veracross.com'', ''remember_token'', ''A''),
                                (''portals.veracross.com'', ''_veracross_session'', ''B1'')],
                  script := [],
                  sent := [\<lparr>target = ''https://portals.veracross.com/csg/parent'',
                            headers = [(''Cookie'', ''remember_token=A; _veracross_session=B1''),
                                       (''User-Agent'', userAgent_Chrome91)],
                            init = []\<rparr>]\<rparr>)"
  by (simp add: ensureAuthenticated_def switch_load)
     (simp add: world_of_A_def makeRequest_def example_hosts getCookieString_def fetch_def
       no_options_def headers_of_def probe_accepts_def ok_def example_env_def host_of_def)

section \<open>The trusted flag and the probe\<close>

lemma makeRequest_keeps:
  "isAuthenticated (snd (makeRequest e u opts w)) = isAuthenticated w"
  "currentUserEmail (snd (makeRequest e u opts w)) = currentUserEmail w"
  "browserAuthServer (snd (makeRequest e u opts w)) = browserAuthServer w"
  "credentialStore (snd (makeRequest e u opts w)) = credentialStore w"
  "db (snd (makeRequest e u opts w)) = db w"
  by (auto simp: makeRequest_def fetch_def Let_def split: list.splits option.splits prod.splits bool.splits)

lemma loadStoredSession_browserOnly_True:
  assumes "loadStoredSession_browserOnly e now u w = (True, w1)"
  shows "isAuthenticated w1" and "currentUserEmail w1 = Some u"
  using assms
  by (auto simp: loadStoredSession_browserOnly_def ensureBrowserAuthServer_def Let_def
      split: option.splits if_splits)

lemma ensureAuthenticated_browserOnly_slow_path:
  assumes slow: "\<not> (isAuthenticated w \<and> currentUserEmail w = Some u)"
    and loaded: "loadStoredSession_browserOnly e now u w = (True, w1)"
  shows "(fst (ensureAuthenticated_browserOnly e now u w) = Inr True) =
           (\<exists>r. fst (makeRequest e (baseUrl e @ ''/parent'') no_options w1) = Inr r \<and> probe_accepts r)"
    and "isAuthenticated (snd (ensureAuthenticated_browserOnly e now u w))"
    and "currentUserEmail (snd (ensureAuthenticated_browserOnly e now u w)) = Some u"
proof -
  obtain res w2 where mr: "makeRequest e (baseUrl e @ ''/parent'') no_options w1 = (res, w2)"
    by (cases "makeRequest e (baseUrl e @ ''/parent'') no_options w1")
  have w2: "isAuthenticated w2" "currentUserEmail w2 = Some u"
    using makeRequest_keeps(1,2) [of e "baseUrl e @ ''/parent''" no_options w1]
      loadStoredSession_browserOnly_True [OF loaded] mr by simp_all
  have snd_eq: "snd (ensureAuthenticated_browserOnly e now u w) = w2"
    using slow loaded mr
    by (auto simp: ensureAuthenticated_browserOnly_def split: sum.splits)
  show "(fst (ensureAuthenticated_browserOnly e now u w) = Inr True) =
           (\<exists>r. fst (makeRequest e (baseUrl e @ ''/parent'') no_options w1) = Inr r \<and> probe_accepts r)"
    using slow loaded mr
    by (auto simp: ensureAuthenticated_browserOnly_def split: sum.splits)
  show "isAuthenticated (snd (ensureAuthenticated_browserOnly e now u w))"
    using snd_eq w2 by simp
  show "currentUserEmail (snd (ensureAuthenticated_browserOnly e now u w)) = Some u"
    using snd_eq w2 by simp
qed

lemma ensureAuthenticated_browserOnly_fast_path:
  "isAuthenticated w \<Longrightarrow> currentUserEmail w = Some u \<Longrightarrow>
   ensureAuthenticated_browserOnly e now u w = (Inr True, w)"
  by (simp add: ensureAuthenticated_browserOnly_def)

text \<open>
  After a loaded session whose probe was not accepted, the next call for the same user
  answers from the flag, without a probe.
\<close>

lemma rejected_then_trusted:
  assumes slow: "\<not> (isAuthenticated w \<and> currentUserEmail w = Some u)"
    and loaded: "loadStoredSession_browserOnly e now u w = (True, w1)"
  shows "ensureAuthenticated_browserOnly e now' u (snd (ensureAuthenticated_browserOnly e now u w))
           = (Inr True, snd (ensureAuthenticated_browserOnly e now u w))"
  using ensureAuthenticated_browserOnly_slow_path(2,3) [OF slow loaded]
  by (rule ensureAuthenticated_browserOnly_fast_path)

text \<open>The same in the class with the fallbacks, on an object that was logged out.\<close>

lemma logout_load:
  "loadStoredSession example_env ''b@x.com'' world_after_logout =
     (True, world_after_logout\<lparr>isAuthenticated := True,
              cookieJar := [(''portals.veracross.com'', ''_veracross_session'', ''B1'')]\<rparr>)"
  by (simp add: loadStoredSession_def ensureCredentialStore_def world_after_logout_def
      store_loadCredentials_def example_load example_session 
      example_hosts setCookie_def parse_cookie_def Let_def trim_def is_space_def)

lemma logout_first_call:
  "ensureAuthenticated example_env ''b@x.com'' world_after_logout =
     (False,
      world_after_logout\<lparr>isAuthenticated := True,
         cookieJar := [(''portals.veracross.com'', ''_veracross_session'', ''B1'')],
         script := [],
         sent := [\<lparr>target = ''https://portals.veracross.com/csg/parent'',
                   headers = [(''Cookie'', ''_veracross_session=B1''),
                              (''User-Agent'', userAgent_Chrome91)],
                   init = []\<rparr>,
                  \<lparr>target = ''https://portals.veracross.com/csg/parent'',
                   headers = [(''Cookie'', ''_veracross_session=B1''),
                              (''User-Agent'', userAgent_Chrome91)],
                   init = []\<rparr>]\<rparr>)"
  apply (simp add: ensureAuthenticated_def logout_load)
  apply (simp add: world_after_logout_def makeRequest_def example_hosts getCookieString_def fetch_def
       no_options_def headers_of_def probe_accepts_def ok_def host_of_def)
  apply (simp add: reauthenticate_def ensureCredentialStore_def store_loadCredentials_def
       example_load example_session authenticateWithBrowser_def hasStoredSession_def
       loadStoredSession_def example_hosts setCookie_def parse_cookie_def Let_def trim_def is_space_def
        makeRequest_def getCookieString_def fetch_def
       no_options_def headers_of_def probe_accepts_def ok_def host_of_def)
  apply (simp add: startBrowserFlow_def ensureBrowserAuthServer_def example_env_def)
  done

text \<open>
  Claim C2 says that a stored session is trusted only if its probe was successful and did
  not end on a login page. \<open>loadStoredSession\<close> sets \<open>isAuthenticated\<close> before the probe,
  and nothing clears it when the probe is rejected. In the class of \<open>auth.ts\<close>, with a stored
  session whose probe is answered by a 200 response from the login page, the first
  \<open>ensureAuthenticated\<close> throws and leaves the flag set, and the second call for the same
  user returns \<open>true\<close> without making a request. In the class with the fallbacks, on an
  object whose browser-auth server exists already, the first call returns \<open>false\<close> after two
  rejected probes and a failed browser login, and the second call returns \<open>true\<close>.
\<close>

theorem rejected_session_stays_trusted:
  "script world_rejecting =
     [Some \<lparr>status = 200, location = None, set_cookie = [],
            url = ''https://portals.veracross.com/csg/login'', body = []\<rparr>] \<and>
   fst (ensureAuthenticated_browserOnly example_env 50 ''b@x.com'' world_rejecting)
     = Inl (Error ''Browser authentication required. Please use the authenticate_browser tool first.'') \<and>
   isAuthenticated (snd (ensureAuthenticated_browserOnly example_env 50 ''b@x.com'' world_rejecting)) \<and>
   ensureAuthenticated_browserOnly example_env 60 ''b@x.com''
       (snd (ensureAuthenticated_browserOnly example_env 50 ''b@x.com'' world_rejecting))
     = (Inr True, snd (ensureAuthenticated_browserOnly example_env 50 ''b@x.com'' world_rejecting)) \<and>
   fst (ensureAuthenticated example_env ''b@x.com'' world_after_logout) = False \<and>
   isAuthenticated (snd (ensureAuthenticated example_env ''b@x.com'' world_after_logout)) \<and>
   ensureAuthenticated example_env ''b@x.com''
       (snd (ensureAuthenticated example_env ''b@x.com'' world_after_logout))
     = (True, snd (ensureAuthenticated example_env ''b@x.com'' world_after_logout))"
  by (simp add: rejecting_first_call ensureAuthenticated_browserOnly_fast_path logout_first_call)
     (simp add: world_rejecting_def world_after_logout_def ensureAuthenticated_def)

text \<open>
  Claim C4 says that a request for another user destroys the channel of the previous one:
  the flag is reset and no cookie of the previous user goes out with the new user's
  requests. The guards reset the flag and leave the jar; \<open>loadStoredSession\<close> adds the
  stored cookies of the new user to it. With \<open>remember_token=A\<close> in the jar of
  \<open>a@x.com\<close>, the probe made for \<open>b@x.com\<close> carries that cookie next to the session
  cookie of \<open>b@x.com\<close>, and the jar keeps it.
\<close>

theorem switching_user_keeps_cookie_jar:
  "currentUserEmail world_of_A = Some ''a@x.com'' \<and>
   cookieJar world_of_A = [(''portals.veracross.com'', ''remember_token'', ''A'')] \<and>
   fst (ensureAuthenticated example_env ''b@x.com'' world_of_A) = True \<and>
   map (\<lambda>c. (target c, map_of (headers c) ''Cookie''))
       (sent (snd (ensureAuthenticated example_env ''b@x.com'' world_of_A)))
     = [(''https://portals.veracross.com/csg/parent'',
         Some ''remember_token=A; _veracross_session=B1'')] \<and>
   cookieJar (snd (ensureAuthenticated example_env ''b@x.com'' world_of_A))
     = [(''portals.veracross.com'', ''remember_token'', ''A''),
        (''portals.veracross.com'', ''_veracross_session'', ''B1'')] \<and>
   cookieJar (ensureCredentialStore ''b@x.com'' world_of_A) = cookieJar world_of_A \<and>
   cookieJar (ensureBrowserAuthServer ''b@x.com'' world_of_A) = cookieJar world_of_A \<and>
   \<not> isAuthenticated (ensureCredentialStore ''b@x.com'' world_of_A) \<and>
   \<not> isAuthenticated (ensureBrowserAuthServer ''b@x.com'' world_of_A) \<and>
   cookieJar (logout world_of_A) = []"
  by (simp add: switch_call guards_keep_cookieJar)
     (simp add: world_of_A_def logout_def ensureCredentialStore_def ensureBrowserAuthServer_def)


section \<open>The cross-domain request\<close>






text \<open>
  In the variant with the credential store, a stored text that is the JSON value \<open>null\<close>
  makes the cross-domain request throw the \<open>TypeError\<close> of the runtime, which carries no
  label of the code. The amended claim leaves this case out.
\<close>

lemma example_null_session:
  "fst (makeAuthenticatedRequest example_env ''https://accounts.veracross.com/csg/portals''
          no_options
          (world_of_B\<lparr>db := saveCredentials (cipher example_env) (digest example_env)
                                (lowerCase example_env) (masterKey example_env) ''b@x.com''
                                ''00'' 0 \<lparr>username = ''b@x.com'', password = ''null''\<rparr> []\<rparr>))
     = Inl TypeError"
proof -
  let ?w = "world_of_B\<lparr>db := saveCredentials (cipher example_env) (digest example_env)
                                (lowerCase example_env) (masterKey example_env) ''b@x.com''
                                ''00'' 0 \<lparr>username = ''b@x.com'', password = ''null''\<rparr> []\<rparr>"
  have cur: "currentUserEmail ?w = Some ''b@x.com''"
    by (simp add: world_of_B_def)
  have hosts: "''accounts.veracross.com'' \<noteq> ''portals.veracross.com''"
    by simp
  have null: "stored_session_is_null example_env ''b@x.com'' ?w"
    by (simp add: stored_session_is_null_def stored_session_text_def ensureCredentialStore_def
        world_of_B_def store_loadCredentials_def loadCredentials_def findOne_def
        saveCredentials_def replaceOne_upsert_def example_env_def deriveKey_def)
  show ?thesis
    by (rule cross_domain_null_session(1) [OF cur example_hosts(5) example_hosts(4) hosts null])
qed

section \<open>The listener of the login flow\<close>

lemma server_close: "server (close s) = None"
  by (simp add: close_def split: option.splits)

lemma race_bounded: "snd (race evs) \<le> timeout_ms"
  by (induction evs rule: race.induct) (auto split: option.splits)

lemma race_True_captured:
  "fst (race evs) \<Longrightarrow> \<exists>t ev. (t, ev) \<in> set evs \<and> t < timeout_ms \<and> resolves ev = Some True"
proof (induction evs rule: race.induct)
  case 1
  then show ?case by simp
next
  case (2 t ev rest)
  show ?case
  proof (cases "timeout_ms \<le> t")
    case True
    with "2.prems" show ?thesis by simp
  next
    case late: False
    show ?thesis
    proof (cases "resolves ev")
      case None
      with late "2.prems" "2.IH" show ?thesis by auto
    next
      case (Some result)
      with late "2.prems" have "resolves ev = Some True" by simp
      with late show ?thesis by (intro exI [of _ t] exI [of _ ev]) simp
    qed
  qed
qed

text \<open>
  Claim C7. Whatever happens during an invocation of \<open>startAuthFlow\<close> (no port, the browser
  does not open, a session is captured, a callback throws, attempts are rejected until the
  timer fires, or nothing arrives at all) the invocation returns with the listener closed
  (\<open>server\<close> is \<open>null\<close> again), after a wait of at most the ten minutes of the timer; and it
  returns \<open>true\<close> only if a request that captured a session arrived before the timer fired.
\<close>

theorem startAuthFlow_closes_listener:
  "server (snd (startAuthFlow flow s)) = None \<and>
   snd (fst (startAuthFlow flow s)) \<le> timeout_ms \<and>
   timeout_ms = 600000 \<and>
   (fst (fst (startAuthFlow flow s)) =
      (port_found flow \<noteq> None \<and> browser_opened flow \<and> fst (race (arrivals flow))))"
  using race_bounded [of "arrivals flow"]
  by (auto simp: startAuthFlow_def Let_def server_close timeout_ms_def
      split: option.splits prod.splits)

section \<open>The key text determines the query\<close>

lemma hex_digit_inj:
  assumes "i < 16" and "j < 16" and "hex_digit i = hex_digit j"
  shows "i = j"
proof -
  have d: "distinct ''0123456789abcdef''" by simp
  have l: "length ''0123456789abcdef'' = 16" by simp
  from assms show ?thesis
    using nth_eq_iff_index_eq [OF d, of i j] l by (simp add: hex_digit_def)
qed

lemma json_escape_plain: "\<not> needs_escape c \<Longrightarrow> json_escape c = [c]"
  by (simp add: needs_escape_def json_escape_def)

lemma json_escape_special:
  "needs_escape c \<Longrightarrow> \<exists>x t. json_escape c = CHR 0x5C # x # t"
  by (auto simp: needs_escape_def json_escape_def)

lemma json_escape_no_quote: "json_escape c = x # t \<Longrightarrow> x \<noteq> CHR 0x22"
  by (auto simp: json_escape_def split: if_splits)

lemma json_escape_nonempty: "json_escape c \<noteq> []"
  by (auto simp: json_escape_def)


lemma low_char_by_digits:
  assumes "(of_char c :: nat) < 32" and "(of_char c' :: nat) < 32"
    and "hex_digit ((of_char c :: nat) div 16) = hex_digit ((of_char c' :: nat) div 16)"
    and "hex_digit ((of_char c :: nat) mod 16) = hex_digit ((of_char c' :: nat) mod 16)"
  shows "c = c'"
proof -
  have "(of_char c :: nat) div 16 = (of_char c' :: nat) div 16"
    using assms(1,2,3) by (intro hex_digit_inj) auto
  moreover have "(of_char c :: nat) mod 16 = (of_char c' :: nat) mod 16"
    using assms(4) by (intro hex_digit_inj) auto
  ultimately have "(of_char c :: nat) = of_char c'"
    by (metis div_mult_mod_eq)
  then show ?thesis by simp
qed

lemma json_escape_prefix_free:
  assumes "json_escape c @ X = json_escape c' @ X'"
  shows "c = c' \<and> X = X'"
proof (cases "needs_escape c"; cases "needs_escape c'")
  assume "\<not> needs_escape c" "\<not> needs_escape c'"
  with assms show ?thesis by (simp add: json_escape_plain)
next
  assume a: "\<not> needs_escape c" "needs_escape c'"
  then have "c \<noteq> CHR 0x5C" by (auto simp: needs_escape_def)
  with a assms json_escape_special [OF a(2)] show ?thesis
    by (auto simp: json_escape_plain)
next
  assume a: "needs_escape c" "\<not> needs_escape c'"
  then have "c' \<noteq> CHR 0x5C" by (auto simp: needs_escape_def)
  with a assms json_escape_special [OF a(1)] show ?thesis
    by (auto simp: json_escape_plain)
next
  assume a: "needs_escape c" "needs_escape c'"
  with assms show ?thesis
    by (auto simp: json_escape_def split: if_splits dest: low_char_by_digits)
qed


lemma json_escape_cons: "\<exists>x t. json_escape c = x # t \<and> x \<noteq> CHR 0x22"
proof (cases "json_escape c")
  case Nil
  with json_escape_nonempty show ?thesis by blast
next
  case (Cons x t)
  with json_escape_no_quote show ?thesis by blast
qed

lemma escaped_prefix_free:
  "concat (map json_escape s) @ CHR 0x22 # X = concat (map json_escape s') @ CHR 0x22 # X'
     \<Longrightarrow> s = s' \<and> X = X'"
proof (induction s arbitrary: s')
  case Nil
  show ?case
  proof (cases s')
    case Nil
    with Nil.prems show ?thesis by simp
  next
    case (Cons c' cs')
    obtain x t where e: "json_escape c' = x # t" and x: "x \<noteq> CHR 0x22"
      using json_escape_cons by blast
    from Nil.prems have "CHR 0x22 # X = json_escape c' @ concat (map json_escape cs') @ CHR 0x22 # X'"
      by (simp only: Cons list.map concat.simps append_Nil append_assoc)
    with e x show ?thesis by simp
  qed
next
  case (Cons c cs)
  show ?case
  proof (cases s')
    case Nil
    obtain x t where e: "json_escape c = x # t" and x: "x \<noteq> CHR 0x22"
      using json_escape_cons by blast
    from Cons.prems have "json_escape c @ concat (map json_escape cs) @ CHR 0x22 # X = CHR 0x22 # X'"
      by (simp only: Nil list.map concat.simps append_Nil append_assoc)
    with e x show ?thesis by simp
  next
    case c': (Cons c' cs')
    from Cons.prems have
      "json_escape c @ (concat (map json_escape cs) @ CHR 0x22 # X)
         = json_escape c' @ (concat (map json_escape cs') @ CHR 0x22 # X')"
      by (simp only: c' list.map concat.simps append_assoc)
    from json_escape_prefix_free [OF this] have "c = c'"
      and "concat (map json_escape cs) @ CHR 0x22 # X
             = concat (map json_escape cs') @ CHR 0x22 # X'"
      by blast+
    with Cons.IH [of cs'] c' show ?thesis by blast
  qed
qed

lemma json_quote_prefix_free:
  assumes "json_quote s @ X = json_quote s' @ X'"
  shows "s = s' \<and> X = X'"
proof -
  from assms have "concat (map json_escape s) @ CHR 0x22 # X
                     = concat (map json_escape s') @ CHR 0x22 # X'"
    by (simp add: json_quote_def)
  then show ?thesis by (rule escaped_prefix_free)
qed

lemma json_quote_head: "\<exists>t. json_quote s = CHR 0x22 # t"
  by (simp add: json_quote_def)

lemma value_text_prefix_free:
  assumes "v \<noteq> JUndefined" and "v' \<noteq> JUndefined"
    and eq: "value_text v @ X = value_text v' @ X'"
  shows "v = v' \<and> X = X'"
proof (cases v)
  case (JString s)
  show ?thesis
  proof (cases v')
    case s': (JString s')
    with JString eq json_quote_prefix_free [of s X s' X'] show ?thesis by simp
  next
    case (JBoolean b')
    obtain t where "json_quote s = CHR 0x22 # t" using json_quote_head by blast
    with JString JBoolean eq show ?thesis by (cases b') simp_all
  next
    case JUndefined
    with assms show ?thesis by simp
  qed
next
  case (JBoolean b)
  show ?thesis
  proof (cases v')
    case (JString s')
    obtain t where "json_quote s' = CHR 0x22 # t" using json_quote_head by blast
    with JString JBoolean eq show ?thesis by (cases b) simp_all
  next
    case b': (JBoolean b')
    with JBoolean eq show ?thesis by (cases b; cases b') simp_all
  next
    case JUndefined
    with assms show ?thesis by simp
  qed
next
  case JUndefined
  with assms show ?thesis by simp
qed


lemma member_text_prefix_free:
  assumes "snd kv \<noteq> JUndefined" and "snd kv' \<noteq> JUndefined"
    and eq: "member_text kv @ X = member_text kv' @ X'"
  shows "kv = kv' \<and> X = X'"
proof -
  from eq have "json_quote (fst kv) @ (CHR '':'' # value_text (snd kv) @ X)
                  = json_quote (fst kv') @ (CHR '':'' # value_text (snd kv') @ X')"
    by (simp add: member_text_def)
  from json_quote_prefix_free [OF this]
  have k: "fst kv = fst kv'" and "value_text (snd kv) @ X = value_text (snd kv') @ X'"
    by simp_all
  from value_text_prefix_free [OF assms(1,2) this(2)] k show ?thesis
    by (simp add: prod_eq_iff)
qed

lemma member_text_head: "\<exists>t. member_text kv = CHR 0x22 # t"
  using json_quote_head [of "fst kv"] by (auto simp: member_text_def)

lemma join_comma_Cons:
  "join_comma (x # xs) = x @ (if xs = [] then [] else CHR '','' # join_comma xs)"
  by (cases xs) simp_all

lemma join_comma_members_inj:
  assumes "\<forall>kv\<in>set L. snd kv \<noteq> JUndefined" and "\<forall>kv\<in>set L'. snd kv \<noteq> JUndefined"
    and "join_comma (map member_text L) = join_comma (map member_text L')"
  shows "L = L'"
  using assms
proof (induction L arbitrary: L')
  case Nil
  show ?case
  proof (cases L')
    case Nil
    then show ?thesis by simp
  next
    case (Cons kv' rest')
    obtain t where "member_text kv' = CHR 0x22 # t" using member_text_head by blast
    with Nil.prems(3) Cons show ?thesis by (simp add: join_comma_Cons)
  qed
next
  case (Cons kv rest)
  show ?case
  proof (cases L')
    case Nil
    obtain t where "member_text kv = CHR 0x22 # t" using member_text_head by blast
    with Cons.prems(3) Nil show ?thesis by (simp add: join_comma_Cons)
  next
    case c': (Cons kv' rest')
    let ?tail = "\<lambda>xs. if xs = [] then [] else CHR '','' # join_comma (map member_text xs)"
    from Cons.prems(3) c' have
      "member_text kv @ ?tail rest = member_text kv' @ ?tail rest'"
      by (simp add: join_comma_Cons)
    from member_text_prefix_free [OF _ _ this] Cons.prems(1,2) c'
    have kv: "kv = kv'" and tails: "?tail rest = ?tail rest'"
      by simp_all
    from tails have "join_comma (map member_text rest) = join_comma (map member_text rest')"
      by (cases "rest = []"; cases "rest' = []") simp_all
    with Cons.IH [of rest'] Cons.prems(1,2) c' have "rest = rest'" by simp
    with kv c' show ?thesis by simp
  qed
qed

lemma json_members_defined:
  "json_members obj ks = map member_text (defined_members obj ks)"
  by (induction ks) (auto simp: defined_members_def member_text_def split: option.splits
       elim: json_value.elims)

lemma defined_members_values: "\<forall>kv\<in>set (defined_members obj ks). snd kv \<noteq> JUndefined"
  by (auto simp: defined_members_def)

lemma JSON_stringify_inj:
  assumes "JSON_stringify obj ks = JSON_stringify obj' ks'"
  shows "defined_members obj ks = defined_members obj' ks'"
proof -
  from assms have "join_comma (json_members obj ks) = join_comma (json_members obj' ks')"
    by (simp add: JSON_stringify_def)
  then show ?thesis
    by (intro join_comma_members_inj defined_members_values) (simp add: json_members_defined)
qed


section \<open>Objects and their key texts\<close>

lemma js_get_absent: "k \<notin> set (object_keys obj) \<Longrightarrow> js_get obj k = JUndefined"
  by (simp add: js_get_def object_keys_def map_of_eq_None_iff [THEN iffD2])

lemma map_of_defined_members:
  "map_of (defined_members obj ks) k =
     (if k \<in> set ks \<and> js_get obj k \<noteq> JUndefined then Some (js_get obj k) else None)"
  by (induction ks) (auto simp: defined_members_def)

lemma js_get_from_members:
  assumes "set ks = set (object_keys obj)"
  shows "js_get obj k =
           (case map_of (defined_members obj ks) k of None \<Rightarrow> JUndefined | Some v \<Rightarrow> v)"
  using assms js_get_absent [of k obj] by (auto simp: map_of_defined_members)

lemma map_of_js_delete: "map_of (js_delete d obj) k = (if k = d then None else map_of obj k)"
  by (induction obj) (auto simp: js_delete_def)

lemma js_get_js_delete: "js_get (js_delete d obj) k = (if k = d then JUndefined else js_get obj k)"
  by (simp add: js_get_def map_of_js_delete)

lemma js_get_searchParams:
  "js_get (searchParams_of params) k = (if volatile k then JUndefined else js_get params k)"
  by (auto simp: searchParams_of_def js_get_js_delete volatile_def)

lemma cacheKeyText_alt:
  "cacheKeyText params =
     JSON_stringify (searchParams_of params) (sort (object_keys (searchParams_of params)))"
  by (simp add: cacheKeyText_def searchParams_of_def Let_def)

text \<open>Equal key texts: the objects agree on every property that is not left out.\<close>

lemma cacheKeyText_determines:
  assumes "cacheKeyText p = cacheKeyText q" and "\<not> volatile k"
  shows "js_get p k = js_get q k"
proof -
  let ?sp = "searchParams_of p" and ?sq = "searchParams_of q"
  have "defined_members ?sp (sort (object_keys ?sp)) = defined_members ?sq (sort (object_keys ?sq))"
    using assms(1) by (intro JSON_stringify_inj) (simp add: cacheKeyText_alt)
  then have "js_get ?sp k = js_get ?sq k"
    using js_get_from_members [of "sort (object_keys ?sp)" ?sp k]
      js_get_from_members [of "sort (object_keys ?sq)" ?sq k]
    by simp
  with assms(2) show ?thesis by (simp add: js_get_searchParams)
qed

text \<open>Agreeing objects: equal key texts, whatever the order of the properties.\<close>

lemma defined_keys_sorted:
  assumes "distinct (object_keys obj)"
  shows "filter (\<lambda>k. js_get obj k \<noteq> JUndefined) (sort (object_keys obj))
           = sorted_list_of_set {k. js_get obj k \<noteq> JUndefined}"
proof -
  let ?P = "\<lambda>k. js_get obj k \<noteq> JUndefined"
  have set_eq: "set (filter ?P (object_keys obj)) = {k. ?P k}"
    using js_get_absent [of _ obj] by auto
  have "filter ?P (sort (object_keys obj)) = sort (filter ?P (object_keys obj))"
    by (simp add: filter_sort)
  also have "\<dots> = sorted_list_of_set (set (filter ?P (object_keys obj)))"
    using assms
    by (simp only: sorted_list_of_set_sort_remdups distinct_remdups_id distinct_filter)
  finally show ?thesis by (simp only: set_eq)
qed

lemma cacheKeyText_agree:
  assumes "distinct (map fst p)" and "distinct (map fst q)"
    and agree: "\<And>k. \<not> volatile k \<Longrightarrow> js_get p k = js_get q k"
  shows "cacheKeyText p = cacheKeyText q"
proof -
  let ?sp = "searchParams_of p" and ?sq = "searchParams_of q"
  have same: "js_get ?sp = js_get ?sq"
    using agree by (auto simp: js_get_searchParams fun_eq_iff)
  have dp: "distinct (object_keys ?sp)" and dq: "distinct (object_keys ?sq)"
    using assms(1,2)
    by (simp_all add: object_keys_def searchParams_of_def js_delete_def distinct_map_filter)
  have "defined_members ?sp (sort (object_keys ?sp)) = defined_members ?sq (sort (object_keys ?sq))"
    unfolding defined_members_def defined_keys_sorted [OF dp] defined_keys_sorted [OF dq]
    by (simp add: same)
  then show ?thesis
    by (simp add: cacheKeyText_alt JSON_stringify_def json_members_defined)
qed

lemma SearchCache_getCacheKey_agree:
  assumes "\<And>k. k \<in> set [''firstName'', ''lastName'', ''city'', ''postalCode'', ''gradeLevel'']
              \<Longrightarrow> or_empty (js_get p k) = or_empty (js_get q k)"
  shows "SearchCache_getCacheKey p = SearchCache_getCacheKey q"
  using assms by (simp add: SearchCache_getCacheKey_def SearchCache_keyText_def)

text \<open>
  Claim C9, as amended. Two parameter objects that agree on every property other than
  \<open>refresh\<close> and \<open>userEmail\<close> produce the same signature in \<open>MongoSearchCache.getCacheKey\<close>,
  in whatever order their properties are; in particular two objects with the same
  properties in a different order produce the same signature in both caches. Two objects that differ in a property other than
  these two (an absent property counting as \<open>undefined\<close>) have different key texts, so
  their signatures are equal only if the digest collides on two different texts.
  \<open>SearchCache.getCacheKey\<close> reads the five directory fields only and takes an absent,
  undefined or empty field for the empty string: objects that agree on the five fields up
  to that produce the same signature.
\<close>

theorem cache_signature_canonical:
  "(distinct (map fst p) \<and> distinct (map fst q)
      \<and> (\<forall>k. \<not> volatile k \<longrightarrow> js_get p k = js_get q k)
      \<longrightarrow> getCacheKey H p = getCacheKey H q) \<and>
   ((\<exists>k. \<not> volatile k \<and> js_get p k \<noteq> js_get q k)
      \<longrightarrow> cacheKeyText p \<noteq> cacheKeyText q \<and>
          (getCacheKey H p = getCacheKey H q
             \<longrightarrow> (\<exists>t t'. t \<noteq> t' \<and> H t = H t'))) \<and>
   ((\<forall>k\<in>set [''firstName'', ''lastName'', ''city'', ''postalCode'', ''gradeLevel''].
        or_empty (js_get p k) = or_empty (js_get q k))
      \<longrightarrow> SearchCache_getCacheKey p = SearchCache_getCacheKey q) \<and>
   (distinct (map fst p) \<and> distinct (map fst q) \<and> set p = set q
      \<longrightarrow> getCacheKey H p = getCacheKey H q \<and>
          SearchCache_getCacheKey p = SearchCache_getCacheKey q)"
proof (intro conjI impI)
  assume perm: "distinct (map fst p) \<and> distinct (map fst q) \<and> set p = set q"
  then have "map_of p = map_of q"
    using map_of_inject_set [of p q] by blast
  then have same: "js_get p = js_get q"
    by (simp add: js_get_def fun_eq_iff)
  with perm have "cacheKeyText p = cacheKeyText q"
    by (intro cacheKeyText_agree) simp_all
  then show "getCacheKey H p = getCacheKey H q"
    by (simp add: getCacheKey_def)
  from same show "SearchCache_getCacheKey p = SearchCache_getCacheKey q"
    by (intro SearchCache_getCacheKey_agree) simp
next
  assume "distinct (map fst p) \<and> distinct (map fst q)
      \<and> (\<forall>k. \<not> volatile k \<longrightarrow> js_get p k = js_get q k)"
  then have "cacheKeyText p = cacheKeyText q"
    by (intro cacheKeyText_agree) simp_all
  then show "getCacheKey H p = getCacheKey H q"
    by (simp add: getCacheKey_def)
next
  assume differ: "\<exists>k. \<not> volatile k \<and> js_get p k \<noteq> js_get q k"
  then show texts: "cacheKeyText p \<noteq> cacheKeyText q"
    using cacheKeyText_determines [of p q] by blast
  assume "getCacheKey H p = getCacheKey H q"
  then have "H (cacheKeyText p) = H (cacheKeyText q)"
    by (simp add: getCacheKey_def)
  with texts show "\<exists>t t'. t \<noteq> t' \<and> H t = H t'" by blast
next
  assume "\<forall>k\<in>set [''firstName'', ''lastName'', ''city'', ''postalCode'', ''gradeLevel''].
        or_empty (js_get p k) = or_empty (js_get q k)"
  then show "SearchCache_getCacheKey p = SearchCache_getCacheKey q"
    by (intro SearchCache_getCacheKey_agree) blast
qed

theorem cache_signature_canonical_witness:
  "getCacheKey (\<lambda>s. s)
     [(''lastName'', JString ''Smith''), (''firstName'', JString ''Ann''),
      (''refresh'', JBoolean True)]
   = getCacheKey (\<lambda>s. s)
     [(''firstName'', JString ''Ann''), (''userEmail'', JString ''a@x.com''),
      (''lastName'', JString ''Smith'')] \<and>
   js_get [(''lastName'', JString ''Smith'')] ''lastName''
     \<noteq> js_get [(''lastName'', JString ''Smyth'')] ''lastName'' \<and>
   cacheKeyText [(''lastName'', JString ''Smith'')] \<noteq> cacheKeyText [(''lastName'', JString ''Smyth'')] \<and>
   SearchCache_getCacheKey [(''lastName'', JString ''Smith''), (''refresh'', JBoolean True)]
   = SearchCache_getCacheKey [(''userEmail'', JString ''a@x.com''), (''lastName'', JString ''Smith'')] \<and>
   getCacheKey (\<lambda>s. s) [(''lastName'', JString ''Smith''), (''city'', JString ''Columbus'')]
   = getCacheKey (\<lambda>s. s) [(''city'', JString ''Columbus''), (''lastName'', JString ''Smith'')]"
proof -
  let ?p = "[(''lastName'', JString ''Smith''), (''firstName'', JString ''Ann''),
      (''refresh'', JBoolean True)]"
  let ?q = "[(''firstName'', JString ''Ann''), (''userEmail'', JString ''a@x.com''),
      (''lastName'', JString ''Smith'')]"
  have agree: "distinct (map fst ?p) \<and> distinct (map fst ?q)
      \<and> (\<forall>k. \<not> volatile k \<longrightarrow> js_get ?p k = js_get ?q k)"
    by (simp add: volatile_def js_get_def)
  have one: "getCacheKey (\<lambda>s. s) ?p = getCacheKey (\<lambda>s. s) ?q"
    using cache_signature_canonical [of ?p ?q "\<lambda>s. s", THEN conjunct1] agree by blast
  have d: "js_get [(''lastName'', JString ''Smith'')] ''lastName''
     \<noteq> js_get [(''lastName'', JString ''Smyth'')] ''lastName''"
    by (simp add: js_get_def)
  have nv: "\<not> volatile ''lastName''"
    by (simp add: volatile_def)
  have two: "cacheKeyText [(''lastName'', JString ''Smith'')]
               \<noteq> cacheKeyText [(''lastName'', JString ''Smyth'')]"
    using cache_signature_canonical [of "[(''lastName'', JString ''Smith'')]"
        "[(''lastName'', JString ''Smyth'')]" "\<lambda>s. s", THEN conjunct2, THEN conjunct1] d nv
    by blast
  have five: "\<forall>k\<in>set [''firstName'', ''lastName'', ''city'', ''postalCode'', ''gradeLevel''].
        or_empty (js_get [(''lastName'', JString ''Smith''), (''refresh'', JBoolean True)] k)
        = or_empty (js_get [(''userEmail'', JString ''a@x.com''), (''lastName'', JString ''Smith'')] k)"
    by (simp add: js_get_def)
  have three: "SearchCache_getCacheKey [(''lastName'', JString ''Smith''), (''refresh'', JBoolean True)]
   = SearchCache_getCacheKey [(''userEmail'', JString ''a@x.com''), (''lastName'', JString ''Smith'')]"
    using cache_signature_canonical [of "[(''lastName'', JString ''Smith''), (''refresh'', JBoolean True)]"
        "[(''userEmail'', JString ''a@x.com''), (''lastName'', JString ''Smith'')]" "\<lambda>s. s",
        THEN conjunct2, THEN conjunct2, THEN conjunct1] five
    by blast
  have perm: "distinct (map fst [(''lastName'', JString ''Smith''), (''city'', JString ''Columbus'')])
      \<and> distinct (map fst [(''city'', JString ''Columbus''), (''lastName'', JString ''Smith'')])
      \<and> set [(''lastName'', JString ''Smith''), (''city'', JString ''Columbus'')]
          = set [(''city'', JString ''Columbus''), (''lastName'', JString ''Smith'')]"
    by auto
  have four: "getCacheKey (\<lambda>s. s) [(''lastName'', JString ''Smith''), (''city'', JString ''Columbus'')]
   = getCacheKey (\<lambda>s. s) [(''city'', JString ''Columbus''), (''lastName'', JString ''Smith'')]"
    using cache_signature_canonical [of "[(''lastName'', JString ''Smith''), (''city'', JString ''Columbus'')]"
        "[(''city'', JString ''Columbus''), (''lastName'', JString ''Smith'')]" "\<lambda>s. s",
        THEN conjunct2, THEN conjunct2, THEN conjunct2] perm
    by blast
  from one d two three four show ?thesis by blast
qed

text \<open>
  The claim as stated fails on \<open>SearchCache.getCacheKey\<close>: an object with an empty
  \<open>firstName\<close> and an object without \<open>firstName\<close> differ in a field that is neither the
  refresh flag nor the identity, and have the same signature; so have the objects with
  \<open>firstName\<close> \<open>>\<close> and \<open>?\<close>, whose key texts differ.
\<close>

theorem cache_signature_counterexample:
  "\<not> volatile ''firstName'' \<and>
   js_get [(''firstName'', JString [])] ''firstName'' \<noteq> js_get [] ''firstName'' \<and>
   SearchCache_getCacheKey [(''firstName'', JString [])] = SearchCache_getCacheKey [] \<and>
   js_get [(''firstName'', JString ''>'')] ''firstName''
     \<noteq> js_get [(''firstName'', JString ''?'')] ''firstName'' \<and>
   SearchCache_keyText [(''firstName'', JString ''>'')]
     \<noteq> SearchCache_keyText [(''firstName'', JString ''?'')] \<and>
   SearchCache_getCacheKey [(''firstName'', JString ''>'')]
     = SearchCache_getCacheKey [(''firstName'', JString ''?'')]"
  by (simp add: volatile_def SearchCache_getCacheKey_def SearchCache_keyText_def js_get_def
      or_empty_def JSON_stringify_def json_quote_def json_escape_def filename_safe_def
      b64_def base64_alphabet_def)

end
